theory Spec2Isabelle
  imports Main "HOL-Library.Word"
begin

unbundle bit_operations_syntax

section \<open>Software SPI: data model\<close>

text \<open>
  The C enumeration \<^verbatim>\<open>sspi_pin_state_t\<close> is an integer type with the two named
  values \<^verbatim>\<open>SSPI_PIN_LOW = 0\<close> and \<^verbatim>\<open>SSPI_PIN_HIGH = 1\<close>.  The byte routine hands
  the masked byte \<^verbatim>\<open>write_byte & mask_tx\<close> to a parameter of this type, so a pin
  state can carry any value of \<^verbatim>\<open>0..255\<close>; it is modelled as an integer, and
  every test of a pin state is the C test against zero.
\<close>

type_synonym sspi_pin_state_t = int
type_synonym u8 = "8 word"
type_synonym addr = nat

definition SSPI_PIN_LOW :: sspi_pin_state_t where
  "SSPI_PIN_LOW = 0"

definition SSPI_PIN_HIGH :: sspi_pin_state_t where
  "SSPI_PIN_HIGH = 1"

text \<open>
  \<^verbatim>\<open>struct sspi\<close>: four function pointers and the configuration.  The callbacks
  act on the state \<open>'e\<close> of whatever is behind the pins; the bus pointer they
  receive in C only identifies the bus and is part of the closure here.
  \<^verbatim>\<open>word_size\<close> is a C \<^verbatim>\<open>int\<close>.
\<close>

record 'e sspi =
  write_sck :: "sspi_pin_state_t \<Rightarrow> 'e \<Rightarrow> 'e"
  write_mosi :: "sspi_pin_state_t \<Rightarrow> 'e \<Rightarrow> 'e"
  read_miso :: "'e \<Rightarrow> sspi_pin_state_t \<times> 'e"
  delay :: "'e \<Rightarrow> 'e"
  cpol_1 :: bool
  cpha_1 :: bool
  lsb :: bool
  word_size :: int

text \<open>
  Everything the library does to the outside is a callback invocation, a load
  from the write buffer or a store to the read buffer.  The world keeps the
  state behind the callbacks, the bytes of memory, and the sequence of these
  events in the order they happened.
\<close>

datatype event =
    Write_sck sspi_pin_state_t
  | Write_mosi sspi_pin_state_t
  | Read_miso sspi_pin_state_t
  | Delay
  | Load addr u8
  | Store addr u8

record 'e world =
  env :: 'e
  cells :: "addr \<Rightarrow> u8"
  log :: "event list"

text \<open>A shift by a negative count is undefined behaviour in C.\<close>

datatype undefined_behaviour = Negative_shift_count

subsection \<open>Calls through the bus, loads and stores\<close>

definition call_write_sck :: "'e sspi \<Rightarrow> sspi_pin_state_t \<Rightarrow> 'e world \<Rightarrow> 'e world" where
  "call_write_sck bus state w =
     w\<lparr>env := write_sck bus state (env w), log := log w @ [Write_sck state]\<rparr>"

definition call_write_mosi :: "'e sspi \<Rightarrow> sspi_pin_state_t \<Rightarrow> 'e world \<Rightarrow> 'e world" where
  "call_write_mosi bus state w =
     w\<lparr>env := write_mosi bus state (env w), log := log w @ [Write_mosi state]\<rparr>"

definition call_read_miso :: "'e sspi \<Rightarrow> 'e world \<Rightarrow> sspi_pin_state_t \<times> 'e world" where
  "call_read_miso bus w =
     (case read_miso bus (env w) of
        (state, e) \<Rightarrow> (state, w\<lparr>env := e, log := log w @ [Read_miso state]\<rparr>))"

definition call_delay :: "'e sspi \<Rightarrow> 'e world \<Rightarrow> 'e world" where
  "call_delay bus w = w\<lparr>env := delay bus (env w), log := log w @ [Delay]\<rparr>"

definition load_u8 :: "addr \<Rightarrow> 'e world \<Rightarrow> u8 \<times> 'e world" where
  "load_u8 p w = (cells w p, w\<lparr>log := log w @ [Load p (cells w p)]\<rparr>)"

definition store_u8 :: "addr \<Rightarrow> u8 \<Rightarrow> 'e world \<Rightarrow> 'e world" where
  "store_u8 p v w = w\<lparr>cells := (cells w)(p := v), log := log w @ [Store p v]\<rparr>"

section \<open>The library\<close>

subsection \<open>\<^verbatim>\<open>sspi_reset\<close>\<close>

definition sspi_reset :: "'e sspi \<Rightarrow> 'e world \<Rightarrow> 'e world" where
  "sspi_reset bus w =
     (let w = call_write_sck bus (if cpol_1 bus then SSPI_PIN_HIGH else SSPI_PIN_LOW) w;
          w = call_write_mosi bus SSPI_PIN_LOW w
      in w)"

subsection \<open>\<^verbatim>\<open>sspi_bit_read_write\<close>\<close>

definition sspi_bit_read_write ::
    "'e sspi \<Rightarrow> sspi_pin_state_t \<Rightarrow> 'e world \<Rightarrow> sspi_pin_state_t \<times> 'e world" where
  "sspi_bit_read_write bus write_bit w =
     (let sck_lead = (if cpol_1 bus then SSPI_PIN_LOW else SSPI_PIN_HIGH);
          sck_trail = (if cpol_1 bus then SSPI_PIN_HIGH else SSPI_PIN_LOW)
      in
        if cpha_1 bus then
          (let w = call_delay bus w;
               w = call_write_sck bus sck_lead w;
               w = call_write_mosi bus write_bit w;
               w = call_delay bus w;
               w = call_write_sck bus sck_trail w;
               (read_bit, w) = call_read_miso bus w
           in (read_bit, w))
        else
          (let w = call_write_mosi bus write_bit w;
               w = call_delay bus w;
               w = call_write_sck bus sck_lead w;
               (read_bit, w) = call_read_miso bus w;
               w = call_delay bus w;
               w = call_write_sck bus sck_trail w
           in (read_bit, w)))"

subsection \<open>\<^verbatim>\<open>sspi_byte_read_write\<close>\<close>

text \<open>The word size the byte routine works with: its first local constant.\<close>

definition norm_word_size :: "'e sspi \<Rightarrow> int" where
  "norm_word_size bus =
     (if word_size bus \<noteq> 0 \<and> word_size bus < 8 then word_size bus else 8)"

text \<open>
  \<^verbatim>\<open>1 << (word_size - 1)\<close>, stored in a \<^verbatim>\<open>uint8_t\<close>; the count is at most 7 and
  the caller has excluded a negative one.
\<close>

definition word_msb_mask :: "int \<Rightarrow> u8" where
  "word_msb_mask ws = push_bit (nat (ws - 1)) 1"

definition mask_tx :: "'e sspi \<Rightarrow> u8" where
  "mask_tx bus = (if lsb bus then 0x01 else word_msb_mask (norm_word_size bus))"

definition mask_rx :: "'e sspi \<Rightarrow> u8" where
  "mask_rx bus = (if lsb bus then word_msb_mask (norm_word_size bus) else 0x01)"

text \<open>
  The \<^verbatim>\<open>for\<close> loop, from the iteration \<open>bit_idx\<close> (the loop variable
  \<^verbatim>\<open>bit\<close>) on.  The two \<^verbatim>\<open>uint8_t\<close> variables are shifted in \<^verbatim>\<open>int\<close> and
  truncated back to eight bits, which is the shift of an 8-bit word.
\<close>

function sspi_byte_loop ::
    "'e sspi \<Rightarrow> int \<Rightarrow> u8 \<Rightarrow> u8 \<Rightarrow> int \<Rightarrow> u8 \<Rightarrow> u8 \<Rightarrow> 'e world \<Rightarrow> u8 \<times> 'e world" where
  "sspi_byte_loop bus ws mtx mrx bit_idx write_byte read_byte w =
     (if bit_idx < ws then
        (case sspi_bit_read_write bus (uint (write_byte AND mtx)) w of
           (state, w) \<Rightarrow>
             (let read_byte = read_byte OR (if state \<noteq> 0 then mrx else 0x00)
              in
                if bit_idx < ws - 1 then
                  if lsb bus then
                    sspi_byte_loop bus ws mtx mrx (bit_idx + 1)
                      (drop_bit 1 write_byte) (drop_bit 1 read_byte) w
                  else
                    sspi_byte_loop bus ws mtx mrx (bit_idx + 1)
                      (push_bit 1 write_byte) (push_bit 1 read_byte) w
                else
                  sspi_byte_loop bus ws mtx mrx (bit_idx + 1) write_byte read_byte w))
      else (read_byte, w))"
  by pat_completeness auto
termination
  by (relation "measure (\<lambda>(bus, ws, mtx, mrx, bit_idx, write_byte, read_byte, w). nat (ws - bit_idx))")
     auto

declare sspi_byte_loop.simps [simp del]

definition sspi_byte_read_write ::
    "'e sspi \<Rightarrow> u8 \<Rightarrow> 'e world \<Rightarrow> undefined_behaviour + (u8 \<times> 'e world)" where
  "sspi_byte_read_write bus write_byte w =
     (let ws = norm_word_size bus
      in
        if ws - 1 < 0 then Inl Negative_shift_count
        else Inr (sspi_byte_loop bus ws (mask_tx bus) (mask_rx bus) 0 write_byte 0 w))"

subsection \<open>\<^verbatim>\<open>sspi_read_write\<close>\<close>

text \<open>
  A buffer argument is a pointer: \<open>None\<close> is \<^verbatim>\<open>NULL\<close>, \<open>Some p\<close> the address of
  its first byte.  Nothing keeps the two buffers apart, so the byte loaded in
  an iteration is whatever the memory holds at that moment.
\<close>

fun sspi_read_write ::
    "'e sspi \<Rightarrow> addr option \<Rightarrow> addr option \<Rightarrow> nat \<Rightarrow> 'e world \<Rightarrow>
       undefined_behaviour + 'e world" where
  "sspi_read_write bus read_buff write_buff 0 w = Inr w"
| "sspi_read_write bus read_buff write_buff (Suc sz) w =
     (case (case write_buff of Some p \<Rightarrow> load_u8 p w | None \<Rightarrow> (0x00, w)) of
        (tx_byte, w) \<Rightarrow>
          (case sspi_byte_read_write bus tx_byte w of
             Inl ub \<Rightarrow> Inl ub
           | Inr (rx_byte, w) \<Rightarrow>
               sspi_read_write bus
                 (map_option Suc read_buff) (map_option Suc write_buff) sz
                 (case read_buff of Some q \<Rightarrow> store_u8 q rx_byte w | None \<Rightarrow> w)))"

definition sspi_read :: "'e sspi \<Rightarrow> addr option \<Rightarrow> nat \<Rightarrow> 'e world \<Rightarrow>
    undefined_behaviour + 'e world" where
  "sspi_read bus read_buff sz w = sspi_read_write bus read_buff None sz w"

definition sspi_write :: "'e sspi \<Rightarrow> addr option \<Rightarrow> nat \<Rightarrow> 'e world \<Rightarrow>
    undefined_behaviour + 'e world" where
  "sspi_write bus write_buff sz w = sspi_read_write bus None write_buff sz w"

section \<open>Vocabulary of the specification\<close>

subsection \<open>One bit-clock cycle\<close>

text \<open>
  The callback sequence of one clock cycle that transmits \<open>write_bit\<close> and
  samples \<open>read_bit\<close>: the leading edge goes away from the idle level, the
  trailing edge returns to it; with \<open>cpha\<close> clear the data is set up before the
  leading edge and sampled on it, with \<open>cpha\<close> set the data changes on the
  leading edge and is sampled on the trailing one.
\<close>

definition bit_clock_cycle ::
    "'e sspi \<Rightarrow> sspi_pin_state_t \<times> sspi_pin_state_t \<Rightarrow> event list" where
  "bit_clock_cycle bus = (\<lambda>(write_bit, read_bit).
     (let lead_level = (if cpol_1 bus then SSPI_PIN_LOW else SSPI_PIN_HIGH);
          trail_level = (if cpol_1 bus then SSPI_PIN_HIGH else SSPI_PIN_LOW)
      in
        if cpha_1 bus then
          [Delay, Write_sck lead_level, Write_mosi write_bit, Delay,
           Write_sck trail_level, Read_miso read_bit]
        else
          [Write_mosi write_bit, Delay, Write_sck lead_level, Read_miso read_bit,
           Delay, Write_sck trail_level]))"

definition clock_cycles ::
    "'e sspi \<Rightarrow> (sspi_pin_state_t \<times> sspi_pin_state_t) list \<Rightarrow> event list" where
  "clock_cycles bus xrs = concat (map (bit_clock_cycle bus) xrs)"

text \<open>The bit engine run once for each level of a list, in order.\<close>

fun clock_bits ::
    "'e sspi \<Rightarrow> sspi_pin_state_t list \<Rightarrow> 'e world \<Rightarrow> sspi_pin_state_t list \<times> 'e world" where
  "clock_bits bus [] w = ([], w)"
| "clock_bits bus (x # xs) w =
     (case sspi_bit_read_write bus x w of
        (r, w) \<Rightarrow> (case clock_bits bus xs w of (rs, w) \<Rightarrow> (r # rs, w)))"

subsection \<open>Projections of the event sequence\<close>

fun is_callback :: "event \<Rightarrow> bool" where
  "is_callback (Load p v) = False"
| "is_callback (Store p v) = False"
| "is_callback ev = True"

fun is_output :: "event \<Rightarrow> bool" where
  "is_output (Write_sck state) = True"
| "is_output (Write_mosi state) = True"
| "is_output ev = False"

fun is_store :: "event \<Rightarrow> bool" where
  "is_store (Store p v) = True"
| "is_store ev = False"

text \<open>The clock and data-out waveform: the calls that drive a pin, in order.\<close>

definition waveform :: "event list \<Rightarrow> event list" where
  "waveform evs = filter is_output evs"

fun mosi_levels :: "event list \<Rightarrow> sspi_pin_state_t list" where
  "mosi_levels [] = []"
| "mosi_levels (Write_mosi state # evs) = state # mosi_levels evs"
| "mosi_levels (ev # evs) = mosi_levels evs"

fun miso_levels :: "event list \<Rightarrow> sspi_pin_state_t list" where
  "miso_levels [] = []"
| "miso_levels (Read_miso state # evs) = state # miso_levels evs"
| "miso_levels (ev # evs) = miso_levels evs"

text \<open>
  The conceptual bus state: the level last driven on the clock and on data-out,
  \<open>None\<close> for a line that has not been driven.
\<close>

fun drive :: "event \<Rightarrow> sspi_pin_state_t option \<times> sspi_pin_state_t option \<Rightarrow>
    sspi_pin_state_t option \<times> sspi_pin_state_t option" where
  "drive (Write_sck state) (sck, mosi) = (Some state, mosi)"
| "drive (Write_mosi state) (sck, mosi) = (sck, Some state)"
| "drive ev (sck, mosi) = (sck, mosi)"

definition line_levels ::
    "event list \<Rightarrow> sspi_pin_state_t option \<times> sspi_pin_state_t option" where
  "line_levels evs = fold drive evs (None, None)"

subsection \<open>The word on the wire\<close>

text \<open>
  The position in the byte of the \<open>k\<close>-th bit on the wire, and the levels handed
  to data-out for a write byte: the transmit mask where the bit is set, zero
  where it is clear.
\<close>

definition bit_position :: "'e sspi \<Rightarrow> nat \<Rightarrow> nat" where
  "bit_position bus k = (if lsb bus then k else nat (norm_word_size bus) - 1 - k)"

definition tx_levels :: "'e sspi \<Rightarrow> u8 \<Rightarrow> sspi_pin_state_t list" where
  "tx_levels bus write_byte =
     map (\<lambda>k. uint (if bit write_byte (bit_position bus k) then mask_tx bus else 0))
       [0..<nat (norm_word_size bus)]"

text \<open>The two shift registers of the byte loop, without the clocking.\<close>

definition shift1 :: "bool \<Rightarrow> u8 \<Rightarrow> u8" where
  "shift1 l x = (if l then drop_bit 1 x else push_bit 1 x)"

definition rx_bit :: "u8 \<Rightarrow> sspi_pin_state_t \<Rightarrow> u8" where
  "rx_bit mrx r = (if r \<noteq> 0 then mrx else 0x00)"

fun shift_out :: "bool \<Rightarrow> u8 \<Rightarrow> u8 \<Rightarrow> nat \<Rightarrow> sspi_pin_state_t list" where
  "shift_out l mtx a 0 = []"
| "shift_out l mtx a (Suc k) = uint (a AND mtx) # shift_out l mtx (shift1 l a) k"

fun shift_in :: "bool \<Rightarrow> u8 \<Rightarrow> u8 \<Rightarrow> sspi_pin_state_t list \<Rightarrow> u8" where
  "shift_in l mrx rb [] = rb"
| "shift_in l mrx rb [r] = rb OR rx_bit mrx r"
| "shift_in l mrx rb (r # r' # rs) = shift_in l mrx (shift1 l (rb OR rx_bit mrx r)) (r' # rs)"

subsection \<open>The transfer as the specification words it\<close>

text \<open>
  Iteration \<open>i\<close> of a transfer: take byte \<open>i\<close> of the write buffer if there is
  one, else \<open>0x00\<close>; run the word composer once; store the result as byte \<open>i\<close> of
  the read buffer if there is one, else drop it.  A transfer of \<open>n\<close> bytes is the
  iterations \<open>0, \<dots>, n - 1\<close> in this order.
\<close>

definition transfer_iteration ::
    "'e sspi \<Rightarrow> addr option \<Rightarrow> addr option \<Rightarrow> nat \<Rightarrow> 'e world \<Rightarrow>
       undefined_behaviour + 'e world" where
  "transfer_iteration bus read_buffer write_buffer i w =
     (case (case write_buffer of Some p \<Rightarrow> load_u8 (p + i) w | None \<Rightarrow> (0x00, w)) of
        (tx, w) \<Rightarrow>
          (case sspi_byte_read_write bus tx w of
             Inl ub \<Rightarrow> Inl ub
           | Inr (rx, w) \<Rightarrow>
               Inr (case read_buffer of Some q \<Rightarrow> store_u8 (q + i) rx w | None \<Rightarrow> w)))"

fun transfer_from ::
    "'e sspi \<Rightarrow> addr option \<Rightarrow> addr option \<Rightarrow> nat \<Rightarrow> nat \<Rightarrow> 'e world \<Rightarrow>
       undefined_behaviour + 'e world" where
  "transfer_from bus read_buffer write_buffer i 0 w = Inr w"
| "transfer_from bus read_buffer write_buffer i (Suc n) w =
     (case transfer_iteration bus read_buffer write_buffer i w of
        Inl ub \<Rightarrow> Inl ub
      | Inr w \<Rightarrow> transfer_from bus read_buffer write_buffer (Suc i) n w)"

definition transfer ::
    "'e sspi \<Rightarrow> addr option \<Rightarrow> addr option \<Rightarrow> nat \<Rightarrow> 'e world \<Rightarrow>
       undefined_behaviour + 'e world" where
  "transfer bus read_buffer write_buffer n w = transfer_from bus read_buffer write_buffer 0 n w"

section \<open>The test bench of the repository\<close>

text \<open>
  \<^verbatim>\<open>test/main.c\<close> emulates three open-drain pins with pull-ups.  A pin records
  one oscillogram character per half period; the level of the device on the
  other side comes from a string of the same characters.  A failed
  \<^verbatim>\<open>TEST_ASSERT\<close> abandons the test: the pins are \<open>None\<close> from then on.
\<close>

record gpio_pin =
  real :: sspi_pin_state_t
  out :: sspi_pin_state_t
  out_set :: bool
  in_samples :: string
  samples :: string

definition gpio_pin_new :: gpio_pin where
  "gpio_pin_new =
     \<lparr>real = SSPI_PIN_HIGH, out = SSPI_PIN_HIGH, out_set = False,
      in_samples = [], samples = []\<rparr>"

definition gpio_pin_read :: "gpio_pin \<Rightarrow> sspi_pin_state_t" where
  "gpio_pin_read pin = real pin"

definition gpio_pin_write :: "gpio_pin \<Rightarrow> sspi_pin_state_t \<Rightarrow> gpio_pin option" where
  "gpio_pin_write pin state =
     (if out_set pin then None else Some (pin\<lparr>out_set := True, out := state\<rparr>))"

definition gpio_pin_set_in :: "gpio_pin \<Rightarrow> string \<Rightarrow> gpio_pin option" where
  "gpio_pin_set_in pin smp =
     (if list_all (\<lambda>c. c = CHR ''_'' \<or> c = CHR ''/'' \<or> c = CHR ''^'' \<or> c = CHR 0x5C) smp
      then Some (pin\<lparr>in_samples := smp\<rparr>)
      else None)"

text \<open>
  \<^verbatim>\<open>samples_count\<close> is the length of \<open>samples\<close>; the array holds 500 characters.
  At the end of the input string the pin reads the pull-up.
\<close>

definition gpio_pin_sample :: "gpio_pin \<Rightarrow> gpio_pin option" where
  "gpio_pin_sample pin =
     (if \<not> length (samples pin) < 500 then None
      else
        (let pin_in =
               (case in_samples pin of
                  [] \<Rightarrow> SSPI_PIN_HIGH
                | c # cs \<Rightarrow>
                    if c = CHR ''_'' \<or> c = CHR 0x5C then SSPI_PIN_LOW else SSPI_PIN_HIGH);
             rest = (case in_samples pin of [] \<Rightarrow> [] | c # cs \<Rightarrow> cs);
             new_real =
               (if out pin = SSPI_PIN_LOW \<or> pin_in = SSPI_PIN_LOW then SSPI_PIN_LOW
                else SSPI_PIN_HIGH)
         in Some (pin\<lparr>in_samples := rest,
                    samples := samples pin @
                      [if real pin = new_real
                       then (if new_real \<noteq> 0 then CHR ''^'' else CHR ''_'')
                       else (if new_real \<noteq> 0 then CHR ''/'' else CHR 0x5C)],
                    out_set := False,
                    real := new_real\<rparr>)))"

record pins =
  pin_sck :: gpio_pin
  pin_mosi :: gpio_pin
  pin_miso :: gpio_pin

definition test_write_sck :: "sspi_pin_state_t \<Rightarrow> pins option \<Rightarrow> pins option" where
  "test_write_sck state e =
     (case e of
        None \<Rightarrow> None
      | Some h \<Rightarrow> map_option (\<lambda>p. h\<lparr>pin_sck := p\<rparr>) (gpio_pin_write (pin_sck h) state))"

definition test_write_mosi :: "sspi_pin_state_t \<Rightarrow> pins option \<Rightarrow> pins option" where
  "test_write_mosi state e =
     (case e of
        None \<Rightarrow> None
      | Some h \<Rightarrow> map_option (\<lambda>p. h\<lparr>pin_mosi := p\<rparr>) (gpio_pin_write (pin_mosi h) state))"

definition test_read_miso :: "pins option \<Rightarrow> sspi_pin_state_t \<times> pins option" where
  "test_read_miso e =
     (case e of
        None \<Rightarrow> (SSPI_PIN_LOW, None)
      | Some h \<Rightarrow> (gpio_pin_read (pin_miso h), Some h))"

definition test_delay :: "pins option \<Rightarrow> pins option" where
  "test_delay e =
     (case e of
        None \<Rightarrow> None
      | Some h \<Rightarrow>
          (case gpio_pin_sample (pin_sck h) of
             None \<Rightarrow> None
           | Some sck \<Rightarrow>
               (case gpio_pin_sample (pin_mosi h) of
                  None \<Rightarrow> None
                | Some mosi \<Rightarrow>
                    (case gpio_pin_sample (pin_miso h) of
                       None \<Rightarrow> None
                     | Some miso \<Rightarrow>
                         Some \<lparr>pin_sck = sck, pin_mosi = mosi, pin_miso = miso\<rparr>))))"

definition setUp :: "pins option" where
  "setUp = Some \<lparr>pin_sck = gpio_pin_new, pin_mosi = gpio_pin_new, pin_miso = gpio_pin_new\<rparr>"

definition test_bus :: "bool \<Rightarrow> bool \<Rightarrow> bool \<Rightarrow> int \<Rightarrow> (pins option) sspi" where
  "test_bus cpol cpha l ws =
     \<lparr>write_sck = test_write_sck, write_mosi = test_write_mosi,
      read_miso = test_read_miso, delay = test_delay,
      cpol_1 = cpol, cpha_1 = cpha, lsb = l, word_size = ws\<rparr>"

text \<open>
  The body the transfer tests share: set the input of MISO, reset, sample,
  transfer two bytes in both directions, sample.  The read buffer
  \<^verbatim>\<open>{0x00, 0x00}\<close> and the write buffer are two arrays of two bytes.
\<close>

definition rd_buff :: addr where
  "rd_buff = 0"

definition wr_buff :: addr where
  "wr_buff = 2"

definition test_world :: "string \<Rightarrow> u8 \<Rightarrow> u8 \<Rightarrow> (pins option) world" where
  "test_world miso_in b0 b1 =
     \<lparr>env = (case setUp of
               None \<Rightarrow> None
             | Some h \<Rightarrow> map_option (\<lambda>p. h\<lparr>pin_miso := p\<rparr>)
                           (gpio_pin_set_in (pin_miso h) miso_in)),
      cells = (\<lambda>a. 0x00)(wr_buff := b0, Suc wr_buff := b1),
      log = []\<rparr>"

definition test_transfer ::
    "(pins option) sspi \<Rightarrow> string \<Rightarrow> u8 \<Rightarrow> u8 \<Rightarrow>
       undefined_behaviour + (pins option) world" where
  "test_transfer bus miso_in b0 b1 =
     (let w = test_world miso_in b0 b1;
          w = sspi_reset bus w;
          w = call_delay bus w
      in
        case sspi_read_write bus (Some rd_buff) (Some wr_buff) 2 w of
          Inl ub \<Rightarrow> Inl ub
        | Inr w \<Rightarrow> Inr (call_delay bus w))"

text \<open>
  What a test then looks at: the two bytes read and the three oscillograms;
  \<open>None\<close> when the run was abandoned.
\<close>

definition test_result ::
    "undefined_behaviour + (pins option) world \<Rightarrow>
       (u8 list \<times> string \<times> string \<times> string) option" where
  "test_result r =
     (case r of
        Inl ub \<Rightarrow> None
      | Inr w \<Rightarrow>
          (case env w of
             None \<Rightarrow> None
           | Some h \<Rightarrow>
               Some ([cells w rd_buff, cells w (Suc rd_buff)],
                     samples (pin_sck h), samples (pin_mosi h), samples (pin_miso h))))"

definition bs :: char where
  "bs = CHR 0x5C"

text \<open>The level sequence \<^verbatim>\<open>___/^^^^^^^\_____/^\_/^\___/^\_/^\<close>.\<close>

definition miso_8bit :: string where
  "miso_8bit =
     ''___/^^^^^^^'' @ [bs] @ ''_____/^'' @ [bs] @ ''_/^'' @ [bs] @ ''___/^'' @ [bs] @ ''_/^''"

text \<open>The addresses loaded from and stored to, in order.\<close>

fun load_addrs :: "event list \<Rightarrow> addr list" where
  "load_addrs [] = []"
| "load_addrs (Load p v # evs) = p # load_addrs evs"
| "load_addrs (ev # evs) = load_addrs evs"

fun store_addrs :: "event list \<Rightarrow> addr list" where
  "store_addrs [] = []"
| "store_addrs (Store p v # evs) = p # store_addrs evs"
| "store_addrs (ev # evs) = store_addrs evs"

subsection \<open>Inputs and observations of particular runs\<close>

text \<open>
  The two bytes read, the clock oscillogram, the levels handed to data-out and
  the levels sampled from data-in; \<open>None\<close> when the run was abandoned.
\<close>

definition test_data ::
    "undefined_behaviour + (pins option) world \<Rightarrow>
       (u8 list \<times> string \<times> sspi_pin_state_t list \<times> sspi_pin_state_t list) option" where
  "test_data r =
     (case r of
        Inl ub \<Rightarrow> None
      | Inr w \<Rightarrow>
          (case env w of
             None \<Rightarrow> None
           | Some h \<Rightarrow>
               Some ([cells w rd_buff, cells w (Suc rd_buff)], samples (pin_sck h),
                     mosi_levels (log w), miso_levels (log w))))"

text \<open>The input of MISO in the five-bit test: \<^verbatim>\<open>\/^^^\_________/^\_/^^\<close>.\<close>

definition miso_5bit :: string where
  "miso_5bit = [bs] @ ''/^^^'' @ [bs] @ ''_________/^'' @ [bs] @ ''_/^^''"

text \<open>
  A device that holds MISO low for seven clock cycles and raises it for the
  eighth, and one that never drives MISO, over memory that holds zeros.
\<close>

definition last_bit_high :: "(pins option) world" where
  "last_bit_high = test_world (replicate 14 CHR ''_'' @ ''/'') 0x00 0x00"

definition idle_world :: "(pins option) world" where
  "idle_world = test_world [] 0x00 0x00"

section \<open>Properties of the model\<close>

lemmas call_defs = call_write_sck_def call_write_mosi_def call_read_miso_def call_delay_def

lemmas pin_defs = SSPI_PIN_LOW_def SSPI_PIN_HIGH_def

subsection \<open>The bit engine\<close>

lemma bit_read_write_log:
  "sspi_bit_read_write bus x w = (r, w') \<Longrightarrow> log w' = log w @ bit_clock_cycle bus (x, r)"
  by (auto simp add: sspi_bit_read_write_def bit_clock_cycle_def call_defs Let_def
        split: prod.splits if_splits)

lemma bit_read_write_cells:
  "sspi_bit_read_write bus x w = (r, w') \<Longrightarrow> cells w' = cells w"
  by (auto simp add: sspi_bit_read_write_def call_defs Let_def split: prod.splits if_splits)

lemma bit_read_write_word_size [simp]:
  "sspi_bit_read_write (bus\<lparr>word_size := k\<rparr>) = sspi_bit_read_write bus"
  by (intro ext) (simp add: sspi_bit_read_write_def call_defs)

text \<open>The bit engine sees the world only through the state behind the callbacks.\<close>

lemma bit_read_write_env:
  assumes "env w1 = env w2"
    and "sspi_bit_read_write bus x w1 = (r1, w1')"
    and "sspi_bit_read_write bus x w2 = (r2, w2')"
  shows "r1 = r2 \<and> env w1' = env w2'"
  using assms
  by (auto simp add: sspi_bit_read_write_def call_defs Let_def split: prod.splits if_splits)

subsection \<open>Runs of the bit engine\<close>

lemma clock_bits_length: "clock_bits bus xs w = (rs, w') \<Longrightarrow> length rs = length xs"
  by (induction xs arbitrary: w rs w') (auto split: prod.splits)

lemma clock_bits_log:
  "clock_bits bus xs w = (rs, w') \<Longrightarrow> log w' = log w @ clock_cycles bus (zip xs rs)"
proof (induction xs arbitrary: w rs w')
  case Nil
  then show ?case by (simp add: clock_cycles_def)
next
  case (Cons x xs)
  obtain r w1 where b: "sspi_bit_read_write bus x w = (r, w1)"
    by (cases "sspi_bit_read_write bus x w")
  obtain rs1 w2 where c: "clock_bits bus xs w1 = (rs1, w2)"
    by (cases "clock_bits bus xs w1")
  from Cons.prems b c have "rs = r # rs1" "w' = w2" by auto
  then show ?case
    using Cons.IH[OF c] bit_read_write_log[OF b] by (simp add: clock_cycles_def)
qed

lemma clock_bits_cells: "clock_bits bus xs w = (rs, w') \<Longrightarrow> cells w' = cells w"
proof (induction xs arbitrary: w rs w')
  case Nil
  then show ?case by simp
next
  case (Cons x xs)
  obtain r w1 where b: "sspi_bit_read_write bus x w = (r, w1)"
    by (cases "sspi_bit_read_write bus x w")
  obtain rs1 w2 where c: "clock_bits bus xs w1 = (rs1, w2)"
    by (cases "clock_bits bus xs w1")
  from Cons.prems b c have "w' = w2" by auto
  then show ?case
    using Cons.IH[OF c] bit_read_write_cells[OF b] by simp
qed

lemma clock_bits_word_size [simp]:
  "clock_bits (bus\<lparr>word_size := k\<rparr>) xs w = clock_bits bus xs w"
  by (induction xs arbitrary: w) auto

lemma clock_bits_env:
  assumes "env w1 = env w2"
    and "clock_bits bus xs w1 = (rs1, w1')"
    and "clock_bits bus xs w2 = (rs2, w2')"
  shows "rs1 = rs2 \<and> env w1' = env w2'"
  using assms
proof (induction xs arbitrary: w1 w2 rs1 rs2 w1' w2')
  case Nil
  then show ?case by simp
next
  case (Cons x xs)
  obtain r1 v1 where b1: "sspi_bit_read_write bus x w1 = (r1, v1)"
    by (cases "sspi_bit_read_write bus x w1")
  obtain r2 v2 where b2: "sspi_bit_read_write bus x w2 = (r2, v2)"
    by (cases "sspi_bit_read_write bus x w2")
  obtain t1 u1 where c1: "clock_bits bus xs v1 = (t1, u1)"
    by (cases "clock_bits bus xs v1")
  obtain t2 u2 where c2: "clock_bits bus xs v2 = (t2, u2)"
    by (cases "clock_bits bus xs v2")
  from bit_read_write_env[OF Cons.prems(1) b1 b2] have r: "r1 = r2" and e: "env v1 = env v2"
    by simp_all
  from Cons.IH[OF e c1 c2] have "t1 = t2" "env u1 = env u2" by simp_all
  with Cons.prems(2,3) b1 b2 c1 c2 r show ?case by auto
qed

lemma mosi_levels_append [simp]: "mosi_levels (xs @ ys) = mosi_levels xs @ mosi_levels ys"
  by (induction xs rule: mosi_levels.induct) auto

lemma miso_levels_append [simp]: "miso_levels (xs @ ys) = miso_levels xs @ miso_levels ys"
  by (induction xs rule: miso_levels.induct) auto

lemma mosi_levels_cycle [simp]: "mosi_levels (bit_clock_cycle bus (x, r)) = [x]"
  by (simp add: bit_clock_cycle_def)

lemma miso_levels_cycle [simp]: "miso_levels (bit_clock_cycle bus (x, r)) = [r]"
  by (simp add: bit_clock_cycle_def)

lemma mosi_levels_cycles: "mosi_levels (clock_cycles bus xrs) = map fst xrs"
  by (induction xrs) (auto simp add: clock_cycles_def)

lemma miso_levels_cycles: "miso_levels (clock_cycles bus xrs) = map snd xrs"
  by (induction xrs) (auto simp add: clock_cycles_def)

lemma callbacks_cycles [simp]: "filter is_callback (clock_cycles bus xrs) = clock_cycles bus xrs"
  by (induction xrs) (auto simp add: clock_cycles_def bit_clock_cycle_def)

lemma stores_cycles [simp]: "filter is_store (clock_cycles bus xrs) = []"
  by (induction xrs) (auto simp add: clock_cycles_def bit_clock_cycle_def)

lemma delays_cycles:
  "length (filter (\<lambda>ev. ev = Delay) (clock_cycles bus xrs)) = 2 * length xrs"
  by (induction xrs) (auto simp add: clock_cycles_def bit_clock_cycle_def)

lemma clock_cycles_append [simp]:
  "clock_cycles bus (xs @ ys) = clock_cycles bus xs @ clock_cycles bus ys"
  by (simp add: clock_cycles_def)

subsection \<open>The byte loop\<close>

lemma loop_step:
  "bit_idx < ws - 1 \<Longrightarrow>
   sspi_byte_loop bus ws mtx mrx bit_idx a rb w =
     (case sspi_bit_read_write bus (uint (a AND mtx)) w of
        (r, w1) \<Rightarrow>
          sspi_byte_loop bus ws mtx mrx (bit_idx + 1)
            (shift1 (lsb bus) a) (shift1 (lsb bus) (rb OR rx_bit mrx r)) w1)"
  by (subst sspi_byte_loop.simps)
     (simp add: shift1_def rx_bit_def Let_def split: prod.splits
        del: push_bit_of_Suc_0 drop_bit_of_Suc_0)

lemma loop_last:
  "bit_idx = ws - 1 \<Longrightarrow>
   sspi_byte_loop bus ws mtx mrx bit_idx a rb w =
     (case sspi_bit_read_write bus (uint (a AND mtx)) w of
        (r, w1) \<Rightarrow> (rb OR rx_bit mrx r, w1))"
  by (subst sspi_byte_loop.simps, subst sspi_byte_loop.simps)
     (simp add: rx_bit_def Let_def split: prod.splits)

lemma loop_decomp:
  "bit_idx \<le> ws \<Longrightarrow>
   sspi_byte_loop bus ws mtx mrx bit_idx a rb w =
     (case clock_bits bus (shift_out (lsb bus) mtx a (nat (ws - bit_idx))) w of
        (rs, w') \<Rightarrow> (shift_in (lsb bus) mrx rb rs, w'))"
proof (induction "nat (ws - bit_idx)" arbitrary: bit_idx a rb w)
  case 0
  then have "\<not> bit_idx < ws" by simp
  then show ?case using 0 by (simp add: sspi_byte_loop.simps)
next
  case (Suc k)
  then have lt: "bit_idx < ws" and k: "k = nat (ws - (bit_idx + 1))" and le: "bit_idx + 1 \<le> ws"
    by linarith+
  obtain r w1 where b: "sspi_bit_read_write bus (uint (a AND mtx)) w = (r, w1)"
    by (cases "sspi_bit_read_write bus (uint (a AND mtx)) w")
  have sh: "nat (ws - bit_idx) = Suc k" using Suc.hyps(2) by simp
  show ?case
  proof (cases "bit_idx < ws - 1")
    case True
    with k have "0 < k" by linarith
    then obtain k' where k': "k = Suc k'" by (cases k) auto
    obtain rs w2 where cb: "clock_bits bus (shift_out (lsb bus) mtx (shift1 (lsb bus) a) k) w1
          = (rs, w2)"
      by (cases "clock_bits bus (shift_out (lsb bus) mtx (shift1 (lsb bus) a) k) w1")
    from clock_bits_length[OF cb] k' obtain r' rs' where rs: "rs = r' # rs'"
      by (cases rs) auto
    show ?thesis
      using Suc.hyps(1)[OF k le, of "shift1 (lsb bus) a" "shift1 (lsb bus) (rb OR rx_bit mrx r)" w1]
        b cb rs
      by (simp add: loop_step[OF True] sh k[symmetric])
  next
    case False
    then have k0: "k = 0" and eq: "bit_idx = ws - 1" using k lt by linarith+
    show ?thesis
      using b by (simp add: loop_last[OF eq] sh k0)
  qed
qed

subsection \<open>The shift registers in closed form\<close>

lemma shift_out_msb:
  "shift_out False m a k = map (\<lambda>i. uint (push_bit i a AND m)) [0..<k]"
proof (induction k arbitrary: a)
  case 0
  show ?case by simp
next
  case (Suc k)
  have "[0..<Suc k] = 0 # map Suc [0..<k]"
    by (simp add: upt_conv_Cons map_Suc_upt del: upt_Suc)
  then show ?case
    by (simp add: Suc.IH shift1_def comp_def push_bit_double del: upt_Suc)
qed

lemma shift_out_lsb:
  "shift_out True m a k = map (\<lambda>i. uint (drop_bit i a AND m)) [0..<k]"
proof (induction k arbitrary: a)
  case 0
  show ?case by simp
next
  case (Suc k)
  have "[0..<Suc k] = 0 # map Suc [0..<k]"
    by (simp add: upt_conv_Cons map_Suc_upt del: upt_Suc)
  then show ?case
    by (simp add: Suc.IH shift1_def comp_def drop_bit_Suc drop_bit_half del: upt_Suc)
qed

lemma bit_word_msb_mask:
  "1 \<le> ws \<Longrightarrow> ws \<le> 8 \<Longrightarrow> bit (word_msb_mask ws) k \<longleftrightarrow> k = nat (ws - 1)"
  unfolding word_msb_mask_def bit_push_bit_iff
  by (auto simp add: possible_bit_word bit_1_iff)

lemma and_top_mask:
  fixes a :: u8
  assumes m: "\<And>k. bit m k \<longleftrightarrow> k = t" and i: "i \<le> t"
  shows "push_bit i a AND m = (if bit a (t - i) then m else 0)"
proof (rule bit_eqI)
  fix n
  have "bit m t" by (simp add: m)
  then have t8: "t < 8" using bit_imp_le_length[of m t] by simp
  show "bit (push_bit i a AND m) n \<longleftrightarrow> bit (if bit a (t - i) then m else 0) n"
    unfolding bit_and_iff bit_push_bit_iff
    using i t8 by (cases "n = t") (simp_all add: m possible_bit_word)
qed

lemma and_lsb_mask:
  fixes a :: u8
  shows "drop_bit i a AND 1 = (if bit a i then 1 else 0)"
  by (auto intro!: bit_eqI simp add: bit_simps)

lemma bit_push1:
  fixes x :: u8
  shows "bit (push_bit 1 x) m \<longleftrightarrow> 0 < m \<and> m < 8 \<and> bit x (m - 1)"
  unfolding bit_push_bit_iff by (auto simp add: possible_bit_word)

lemma bit_drop1:
  fixes x :: u8
  shows "bit (drop_bit 1 x) m \<longleftrightarrow> bit x (Suc m)"
  unfolding bit_drop_bit_eq by simp

lemma bit_rx_bit_1: "bit (rx_bit 1 r) m \<longleftrightarrow> r \<noteq> 0 \<and> m = 0"
  by (simp add: rx_bit_def bit_simps)

lemma bit_rx_bit_top:
  "(\<And>k. bit mrx k \<longleftrightarrow> k = m) \<Longrightarrow> bit (rx_bit mrx r) k \<longleftrightarrow> r \<noteq> 0 \<and> k = m"
  by (simp add: rx_bit_def)

lemma shift_in_msb:
  "rs \<noteq> [] \<Longrightarrow>
   bit (shift_in False 1 rb rs) n \<longleftrightarrow>
     n < 8 \<and> (length rs - 1 \<le> n \<and> bit rb (n - (length rs - 1))
            \<or> n < length rs \<and> rs ! (length rs - 1 - n) \<noteq> 0)"
proof (induction rs arbitrary: rb)
  case Nil
  then show ?case by simp
next
  case (Cons r rs)
  show ?case
  proof (cases rs)
    case Nil
    then show ?thesis
      by (auto simp add: rx_bit_def bit_simps dest: bit_imp_le_length)
  next
    case (Cons r' rs')
    define rb' where "rb' = shift1 False (rb OR rx_bit 1 r)"
    have b: "bit rb' m \<longleftrightarrow> 0 < m \<and> m < 8 \<and> (bit rb (m - 1) \<or> r \<noteq> 0 \<and> m = 1)" for m
      unfolding rb'_def shift1_def if_False bit_push1 bit_or_iff bit_rx_bit_1
      by (cases m) auto
    have step: "shift_in False 1 rb (r # rs) = shift_in False 1 rb' rs"
      by (simp add: Cons rb'_def)
    have ne: "rs \<noteq> []" by (simp add: Cons)
    show ?thesis
      unfolding step Cons.IH[OF ne] b
      by (auto simp add: Cons nth_Cons' Suc_diff_le)
  qed
qed

lemma shift_in_lsb:
  assumes m: "\<And>k. bit mrx k \<longleftrightarrow> k = m"
  shows "rs \<noteq> [] \<Longrightarrow>
   bit (shift_in True mrx rb rs) n \<longleftrightarrow>
     bit rb (n + (length rs - 1))
       \<or> n \<le> m \<and> m - n < length rs \<and> rs ! (length rs - 1 - (m - n)) \<noteq> 0"
proof (induction rs arbitrary: rb)
  case Nil
  then show ?case by simp
next
  case (Cons r rs)
  show ?case
  proof (cases rs)
    case Nil
    then show ?thesis
      by (auto simp add: bit_or_iff bit_rx_bit_top[OF m])
  next
    case (Cons r' rs')
    define rb' where "rb' = shift1 True (rb OR rx_bit mrx r)"
    have b: "bit rb' k \<longleftrightarrow> bit rb (Suc k) \<or> r \<noteq> 0 \<and> Suc k = m" for k
      unfolding rb'_def shift1_def if_True bit_drop1 bit_or_iff bit_rx_bit_top[OF m]
      by simp
    have step: "shift_in True mrx rb (r # rs) = shift_in True mrx rb' rs"
      by (simp add: Cons rb'_def)
    have ne: "rs \<noteq> []" by (simp add: Cons)
    show ?thesis
      unfolding step Cons.IH[OF ne] b
      by (auto simp add: Cons nth_Cons' Suc_diff_le)
  qed
qed

subsection \<open>The byte routine\<close>

lemma norm_word_size_range:
  "0 \<le> word_size bus \<Longrightarrow> 1 \<le> norm_word_size bus \<and> norm_word_size bus \<le> 8"
  by (simp add: norm_word_size_def)

lemma shift_out_tx_levels:
  assumes "1 \<le> norm_word_size bus" and "norm_word_size bus \<le> 8"
  shows "shift_out (lsb bus) (mask_tx bus) a (nat (norm_word_size bus)) = tx_levels bus a"
proof (cases "lsb bus")
  case True
  then show ?thesis
    by (simp add: shift_out_lsb tx_levels_def mask_tx_def bit_position_def and_lsb_mask)
next
  case False
  have "push_bit i a AND word_msb_mask (norm_word_size bus) =
      (if bit a (nat (norm_word_size bus) - 1 - i) then word_msb_mask (norm_word_size bus) else 0)"
    if "i < nat (norm_word_size bus)" for i
  proof -
    have t: "nat (norm_word_size bus) - 1 - i = nat (norm_word_size bus - 1) - i"
      using assms by (simp add: nat_diff_distrib)
    show ?thesis
      unfolding t
      by (rule and_top_mask[OF bit_word_msb_mask[OF assms]]) (use that in linarith)
  qed
  with False show ?thesis
    by (simp add: shift_out_msb tx_levels_def mask_tx_def bit_position_def)
qed

lemma byte_decomp:
  assumes "0 \<le> word_size bus"
  shows "sspi_byte_read_write bus a w =
     Inr (case clock_bits bus (tx_levels bus a) w of
            (rs, w') \<Rightarrow> (shift_in (lsb bus) (mask_rx bus) 0 rs, w'))"
proof -
  from norm_word_size_range[OF assms]
  have r: "1 \<le> norm_word_size bus" "norm_word_size bus \<le> 8" by simp_all
  then have "\<not> norm_word_size bus - 1 < 0" "(0::int) \<le> norm_word_size bus" by linarith+
  then show ?thesis
    by (simp add: sspi_byte_read_write_def Let_def loop_decomp shift_out_tx_levels[OF r])
qed

lemma length_tx_levels [simp]: "length (tx_levels bus a) = nat (norm_word_size bus)"
  by (simp add: tx_levels_def)

lemma bit_shift_in:
  assumes "0 \<le> word_size bus" and len: "length rs = nat (norm_word_size bus)"
  shows "bit (shift_in (lsb bus) (mask_rx bus) 0 rs) n \<longleftrightarrow>
    n < nat (norm_word_size bus) \<and> rs ! bit_position bus n \<noteq> 0"
proof -
  from norm_word_size_range[OF assms(1)]
  have r: "1 \<le> norm_word_size bus" "norm_word_size bus \<le> 8" by simp_all
  with len have ne: "rs \<noteq> []" by auto
  show ?thesis
  proof (cases "lsb bus")
    case True
    have "length rs - 1 = nat (norm_word_size bus - 1)"
      using len r by (simp add: nat_diff_distrib)
    with True show ?thesis
      using shift_in_lsb[OF bit_word_msb_mask[OF r] ne, of 0 n] len r
      by (auto simp add: mask_rx_def bit_position_def)
  next
    case False
    then show ?thesis
      using shift_in_msb[OF ne, of 0 n] len r
      by (auto simp add: mask_rx_def bit_position_def)
  qed
qed

lemma tx_levels_take_bit:
  "tx_levels bus (take_bit (nat (norm_word_size bus)) a) = tx_levels bus a"
  by (auto simp add: tx_levels_def bit_position_def bit_take_bit_iff)

lemma reset_log:
  "log (sspi_reset bus w) =
     log w @ [Write_sck (if cpol_1 bus then SSPI_PIN_HIGH else SSPI_PIN_LOW),
              Write_mosi SSPI_PIN_LOW]"
  by (simp add: sspi_reset_def call_defs)

lemma reset_repeated_log:
  "log ((sspi_reset bus ^^ k) w) =
     log w @ concat (replicate k
       [Write_sck (if cpol_1 bus then SSPI_PIN_HIGH else SSPI_PIN_LOW),
        Write_mosi SSPI_PIN_LOW])"
proof (induction k)
  case 0
  show ?case by simp
next
  case (Suc k)
  have "concat (replicate k [a, b]) @ [a, b] = [a, b] @ concat (replicate k [a, b])"
    for a b :: event
    by (induction k) simp_all
  then show ?case
    by (simp add: reset_log Suc.IH del: replicate_Suc)
       (simp add: replicate_append_same[symmetric])
qed

lemma line_levels_driven:
  "line_levels (evs @ [Write_sck a, Write_mosi b]) = (Some a, Some b)"
  by (cases "fold drive evs (None, None)") (simp add: line_levels_def)

subsection \<open>The byte routine and the event sequence\<close>

lemma byte_log:
  assumes nn: "0 \<le> word_size bus"
  shows "\<exists>rs w'. sspi_byte_read_write bus a w = Inr (shift_in (lsb bus) (mask_rx bus) 0 rs, w') \<and>
     length rs = nat (norm_word_size bus) \<and>
     log w' = log w @ clock_cycles bus (zip (tx_levels bus a) rs) \<and>
     cells w' = cells w"
proof -
  obtain rs w' where c: "clock_bits bus (tx_levels bus a) w = (rs, w')"
    by (cases "clock_bits bus (tx_levels bus a) w")
  from clock_bits_length[OF c] have "length rs = nat (norm_word_size bus)" by simp
  with clock_bits_log[OF c] clock_bits_cells[OF c] byte_decomp[OF nn, of a w] c
  show ?thesis by auto
qed

lemma byte_env:
  assumes nn: "0 \<le> word_size bus" and e: "env w1 = env w2"
  shows "\<exists>rb w1' w2' evs.
     sspi_byte_read_write bus a w1 = Inr (rb, w1') \<and>
     sspi_byte_read_write bus a w2 = Inr (rb, w2') \<and>
     env w1' = env w2' \<and>
     log w1' = log w1 @ evs \<and> log w2' = log w2 @ evs \<and>
     cells w1' = cells w1 \<and> cells w2' = cells w2 \<and>
     filter is_store evs = [] \<and> filter is_callback evs = evs"
proof -
  obtain rs1 v1 where c1: "clock_bits bus (tx_levels bus a) w1 = (rs1, v1)"
    by (cases "clock_bits bus (tx_levels bus a) w1")
  obtain rs2 v2 where c2: "clock_bits bus (tx_levels bus a) w2 = (rs2, v2)"
    by (cases "clock_bits bus (tx_levels bus a) w2")
  from clock_bits_env[OF e c1 c2] have r: "rs1 = rs2" and e': "env v1 = env v2" by simp_all
  show ?thesis
    using byte_decomp[OF nn, of a w1] byte_decomp[OF nn, of a w2] c1 c2 r e'
      clock_bits_log[OF c1] clock_bits_log[OF c2] clock_bits_cells[OF c1] clock_bits_cells[OF c2]
    by (intro exI[of _ "shift_in (lsb bus) (mask_rx bus) 0 rs1"] exI[of _ v1] exI[of _ v2]
          exI[of _ "clock_cycles bus (zip (tx_levels bus a) rs1)"]) simp
qed

subsection \<open>The transfer\<close>

lemma read_write_transfer_from:
  "sspi_read_write bus (map_option (\<lambda>q. q + i) read_buff) (map_option (\<lambda>p. p + i) write_buff) n w =
     transfer_from bus read_buff write_buff i n w"
proof (induction n arbitrary: i w)
  case 0
  show ?case by simp
next
  case (Suc n)
  have s: "map_option Suc (map_option (\<lambda>q. q + i) b) = map_option (\<lambda>q. q + Suc i) b"
    for b :: "addr option"
    by (cases b) simp_all
  have IH: "sspi_read_write bus (map_option (\<lambda>q. q + Suc i) read_buff)
      (map_option (\<lambda>p. p + Suc i) write_buff) n v =
      transfer_from bus read_buff write_buff (Suc i) n v" for v
    by (rule Suc.IH)
  show ?case
  proof (cases write_buff)
    case None
    show ?thesis
    proof (cases read_buff)
      case None
      with \<open>write_buff = None\<close> IH show ?thesis
        by (simp add: transfer_iteration_def split: sum.splits)
    next
      case (Some q)
      with \<open>write_buff = None\<close> IH show ?thesis
        by (simp add: transfer_iteration_def split: sum.splits)
    qed
  next
    case (Some p)
    show ?thesis
    proof (cases read_buff)
      case None
      with \<open>write_buff = Some p\<close> IH show ?thesis
        by (simp add: transfer_iteration_def split: sum.splits prod.splits)
    next
      case (Some q)
      with \<open>write_buff = Some p\<close> IH show ?thesis
        by (simp add: transfer_iteration_def split: sum.splits prod.splits)
    qed
  qed
qed

lemma transfer_log:
  assumes nn: "0 \<le> word_size bus"
  shows "\<exists>w' evs xrs. sspi_read_write bus read_buff write_buff n w = Inr w' \<and>
     log w' = log w @ evs \<and>
     filter is_callback evs = clock_cycles bus xrs \<and>
     length xrs = n * nat (norm_word_size bus)"
proof (induction n arbitrary: read_buff write_buff w)
  case 0
  show ?case by (simp add: clock_cycles_def)
next
  case (Suc n)
  obtain tx w0 l where ld: "(case write_buff of Some p \<Rightarrow> load_u8 p w | None \<Rightarrow> (0x00, w)) = (tx, w0)"
    and l0: "log w0 = log w @ l" and lc: "filter is_callback l = []"
    by (cases write_buff) (auto simp add: load_u8_def)
  from byte_log[OF nn, of tx w0] obtain rs w1
    where b: "sspi_byte_read_write bus tx w0 = Inr (shift_in (lsb bus) (mask_rx bus) 0 rs, w1)"
      and lr: "length rs = nat (norm_word_size bus)"
      and l1: "log w1 = log w0 @ clock_cycles bus (zip (tx_levels bus tx) rs)"
    by blast
  define rx where "rx = shift_in (lsb bus) (mask_rx bus) 0 rs"
  define w2 where "w2 = (case read_buff of Some q \<Rightarrow> store_u8 q rx w1 | None \<Rightarrow> w1)"
  obtain s where l2: "log w2 = log w1 @ s" and sc: "filter is_callback s = []"
    by (cases read_buff) (auto simp add: w2_def store_u8_def)
  from Suc.IH[of "map_option Suc read_buff" "map_option Suc write_buff" w2]
  obtain w' evs xrs
    where r: "sspi_read_write bus (map_option Suc read_buff) (map_option Suc write_buff) n w2 = Inr w'"
      and l3: "log w' = log w2 @ evs"
      and cb: "filter is_callback evs = clock_cycles bus xrs"
      and len: "length xrs = n * nat (norm_word_size bus)"
    by blast
  have run: "sspi_read_write bus read_buff write_buff (Suc n) w = Inr w'"
    using ld b r[unfolded w2_def rx_def] by simp
  have lg: "log w' = log w @ (l @ clock_cycles bus (zip (tx_levels bus tx) rs) @ s @ evs)"
    by (simp add: l3 l2 l1 l0)
  have fc: "filter is_callback (l @ clock_cycles bus (zip (tx_levels bus tx) rs) @ s @ evs) =
      clock_cycles bus (zip (tx_levels bus tx) rs @ xrs)"
    by (simp add: lc sc cb)
  have ln: "length (zip (tx_levels bus tx) rs @ xrs) = Suc n * nat (norm_word_size bus)"
    by (simp add: lr len)
  from run lg fc ln show ?case by blast
qed

lemma tx_levels_zero: "tx_levels bus 0 = replicate (nat (norm_word_size bus)) 0"
  by (simp add: tx_levels_def map_replicate_const)

lemma mosi_levels_no_callback: "filter is_callback l = [] \<Longrightarrow> mosi_levels l = []"
  by (induction l rule: mosi_levels.induct) (auto split: if_splits)

lemma read_only_zero:
  assumes nn: "0 \<le> word_size bus"
  shows "\<exists>w'. sspi_read_write bus read_buff None n w = Inr w' \<and>
     mosi_levels (log w') = mosi_levels (log w) @ replicate (n * nat (norm_word_size bus)) 0"
proof (induction n arbitrary: read_buff w)
  case 0
  show ?case by simp
next
  case (Suc n)
  from byte_log[OF nn, of 0 w] obtain rs w1
    where b: "sspi_byte_read_write bus 0 w = Inr (shift_in (lsb bus) (mask_rx bus) 0 rs, w1)"
      and lr: "length rs = nat (norm_word_size bus)"
      and l1: "log w1 = log w @ clock_cycles bus (zip (tx_levels bus 0) rs)"
    by blast
  define rx where "rx = shift_in (lsb bus) (mask_rx bus) 0 rs"
  define w2 where "w2 = (case read_buff of Some q \<Rightarrow> store_u8 q rx w1 | None \<Rightarrow> w1)"
  have m2: "mosi_levels (log w2) = mosi_levels (log w1)"
    by (cases read_buff) (auto simp add: w2_def store_u8_def)
  from Suc.IH[of "map_option Suc read_buff" w2]
  obtain w' where r: "sspi_read_write bus (map_option Suc read_buff) None n w2 = Inr w'"
    and m3: "mosi_levels (log w') = mosi_levels (log w2) @ replicate (n * nat (norm_word_size bus)) 0"
    by blast
  have run: "sspi_read_write bus read_buff None (Suc n) w = Inr w'"
    using b r[unfolded w2_def rx_def] by simp
  have "mosi_levels (log w1) = mosi_levels (log w) @ replicate (nat (norm_word_size bus)) 0"
    by (simp add: l1 mosi_levels_cycles lr tx_levels_zero)
  with m3 m2 have "mosi_levels (log w') =
      mosi_levels (log w) @ replicate (Suc n * nat (norm_word_size bus)) 0"
    by (simp add: replicate_add)
  with run show ?case by blast
qed

lemma delays_count:
  assumes "filter is_callback evs = clock_cycles bus xrs"
  shows "length (filter (\<lambda>ev. ev = Delay) evs) = 2 * length xrs"
proof -
  have "filter (\<lambda>ev. ev = Delay) evs = filter (\<lambda>ev. ev = Delay) (filter is_callback evs)"
    by (induction evs) (auto elim: is_callback.elims)
  then show ?thesis by (simp add: assms delays_cycles)
qed

lemma waveform_append [simp]: "waveform (xs @ ys) = waveform xs @ waveform ys"
  by (simp add: waveform_def)

lemma null_read_buffer:
  assumes nn: "0 \<le> word_size bus"
  shows "env w1 = env w2 \<Longrightarrow> waveform (log w1) = waveform (log w2) \<Longrightarrow>
     (\<And>p j. write_buff = Some p \<Longrightarrow> j < n \<Longrightarrow> cells w1 (p + j) = cells w2 (p + j)) \<Longrightarrow>
     (\<And>p i j. write_buff = Some p \<Longrightarrow> i < j \<Longrightarrow> j < n \<Longrightarrow> q + i \<noteq> p + j) \<Longrightarrow>
     \<exists>w1' w2'. sspi_read_write bus None write_buff n w1 = Inr w1' \<and>
       sspi_read_write bus (Some q) write_buff n w2 = Inr w2' \<and>
       env w1' = env w2' \<and> waveform (log w1') = waveform (log w2') \<and>
       cells w1' = cells w1 \<and> filter is_store (log w1') = filter is_store (log w1)"
proof (induction n arbitrary: w1 w2 write_buff q)
  case 0
  then show ?case by simp
next
  case (Suc n)
  obtain tx v1 v2 l where ld1: "(case write_buff of Some p \<Rightarrow> load_u8 p w1 | None \<Rightarrow> (0x00, w1)) = (tx, v1)"
    and ld2: "(case write_buff of Some p \<Rightarrow> load_u8 p w2 | None \<Rightarrow> (0x00, w2)) = (tx, v2)"
    and lv1: "log v1 = log w1 @ l" "cells v1 = cells w1" "env v1 = env w1"
    and lv2: "log v2 = log w2 @ l" "cells v2 = cells w2" "env v2 = env w2"
    and ll: "waveform l = []" "filter is_store l = []"
  proof (cases write_buff)
    case None
    show ?thesis
      by (rule that[of 0 w1 w2 "[]"]) (simp_all add: None waveform_def)
  next
    case (Some p)
    from Suc.prems(3)[OF Some, of 0] have c: "cells w1 p = cells w2 p" by simp
    show ?thesis
      by (rule that[of "cells w1 p" "snd (load_u8 p w1)" "snd (load_u8 p w2)" "[Load p (cells w1 p)]"])
         (simp_all add: Some load_u8_def c waveform_def)
  qed
  have e: "env v1 = env v2" by (simp add: lv1 lv2 Suc.prems(1))
  from byte_env[OF nn e, of tx] obtain rb u1 u2 evs
    where b1: "sspi_byte_read_write bus tx v1 = Inr (rb, u1)"
      and b2: "sspi_byte_read_write bus tx v2 = Inr (rb, u2)"
      and eu: "env u1 = env u2"
      and lu: "log u1 = log v1 @ evs" "log u2 = log v2 @ evs"
      and cu: "cells u1 = cells v1" "cells u2 = cells v2"
      and se: "filter is_store evs = []"
    by blast
  define u2' where "u2' = store_u8 q rb u2"
  have e': "env u1 = env u2'" by (simp add: u2'_def store_u8_def eu)
  have wf: "waveform (log u1) = waveform (log u2')"
    by (simp add: u2'_def store_u8_def lu lv1 lv2 Suc.prems(2)) (simp add: waveform_def)
  have cl: "cells u1 (p + j) = cells u2' (p + j)"
    if "map_option Suc write_buff = Some p" "j < n" for p j
  proof -
    from that(1) obtain p0 where p0: "write_buff = Some p0" "p = Suc p0"
      by (cases write_buff) auto
    from Suc.prems(4)[OF p0(1), of 0 "Suc j"] that(2) have "q \<noteq> p + j"
      by (simp add: p0)
    moreover from Suc.prems(3)[OF p0(1), of "Suc j"] that(2)
    have "cells w1 (p + j) = cells w2 (p + j)" by (simp add: p0)
    ultimately show ?thesis
      by (simp add: u2'_def store_u8_def cu lv1 lv2)
  qed
  have nc: "Suc q + i \<noteq> p + j"
    if "map_option Suc write_buff = Some p" "i < j" "j < n" for p i j
  proof -
    from that(1) obtain p0 where p0: "write_buff = Some p0" "p = Suc p0"
      by (cases write_buff) auto
    from Suc.prems(4)[OF p0(1), of i j] that(2,3) show ?thesis
      by (simp add: p0)
  qed
  from Suc.IH[OF e' wf cl nc]
  obtain w1' w2' where r1: "sspi_read_write bus None (map_option Suc write_buff) n u1 = Inr w1'"
    and r2: "sspi_read_write bus (Some (Suc q)) (map_option Suc write_buff) n u2' = Inr w2'"
    and res: "env w1' = env w2'" "waveform (log w1') = waveform (log w2')"
      "cells w1' = cells u1" "filter is_store (log w1') = filter is_store (log u1)"
    by blast
  have run1: "sspi_read_write bus None write_buff (Suc n) w1 = Inr w1'"
    using ld1 b1 r1 by simp
  have run2: "sspi_read_write bus (Some q) write_buff (Suc n) w2 = Inr w2'"
    using ld2 b2 r2[unfolded u2'_def] by simp
  have "cells w1' = cells w1" by (simp add: res cu lv1)
  moreover have "filter is_store (log w1') = filter is_store (log w1)"
    by (simp add: res lu lv1 ll se)
  ultimately show ?case using run1 run2 res(1,2) by blast
qed

lemma load_addrs_append [simp]: "load_addrs (xs @ ys) = load_addrs xs @ load_addrs ys"
  by (induction xs rule: load_addrs.induct) auto

lemma store_addrs_append [simp]: "store_addrs (xs @ ys) = store_addrs xs @ store_addrs ys"
  by (induction xs rule: store_addrs.induct) auto

lemma load_addrs_cycles [simp]: "load_addrs (clock_cycles bus xrs) = []"
  by (induction xrs) (auto simp add: clock_cycles_def bit_clock_cycle_def)

lemma store_addrs_cycles [simp]: "store_addrs (clock_cycles bus xrs) = []"
  by (induction xrs) (auto simp add: clock_cycles_def bit_clock_cycle_def)

lemma upt_shift: "map (\<lambda>i. p + i) [0..<Suc n] = p # map (\<lambda>i. Suc p + i) [0..<n]"
proof -
  have "[0..<Suc n] = 0 # map Suc [0..<n]"
    by (simp add: upt_conv_Cons map_Suc_upt del: upt_Suc)
  then show ?thesis by (simp add: comp_def del: upt_Suc)
qed

lemma transfer_accesses:
  assumes nn: "0 \<le> word_size bus"
  shows "\<exists>w'. sspi_read_write bus read_buff write_buff n w = Inr w' \<and>
     load_addrs (log w') = load_addrs (log w) @
       (case write_buff of None \<Rightarrow> [] | Some p \<Rightarrow> map (\<lambda>i. p + i) [0..<n]) \<and>
     store_addrs (log w') = store_addrs (log w) @
       (case read_buff of None \<Rightarrow> [] | Some q \<Rightarrow> map (\<lambda>i. q + i) [0..<n])"
proof (induction n arbitrary: read_buff write_buff w)
  case 0
  show ?case by (simp split: option.splits)
next
  case (Suc n)
  obtain tx w0 where ld: "(case write_buff of Some p \<Rightarrow> load_u8 p w | None \<Rightarrow> (0x00, w)) = (tx, w0)"
    and l0: "load_addrs (log w0) = load_addrs (log w) @ (case write_buff of None \<Rightarrow> [] | Some p \<Rightarrow> [p])"
      "store_addrs (log w0) = store_addrs (log w)"
    by (cases write_buff) (auto simp add: load_u8_def)
  from byte_log[OF nn, of tx w0] obtain rs w1
    where b: "sspi_byte_read_write bus tx w0 = Inr (shift_in (lsb bus) (mask_rx bus) 0 rs, w1)"
      and l1: "log w1 = log w0 @ clock_cycles bus (zip (tx_levels bus tx) rs)"
    by blast
  define w2 where "w2 = (case read_buff of Some q \<Rightarrow>
      store_u8 q (shift_in (lsb bus) (mask_rx bus) 0 rs) w1 | None \<Rightarrow> w1)"
  have l2: "load_addrs (log w2) = load_addrs (log w1)"
    "store_addrs (log w2) = store_addrs (log w1) @ (case read_buff of None \<Rightarrow> [] | Some q \<Rightarrow> [q])"
    by (cases read_buff; simp add: w2_def store_u8_def)+
  from Suc.IH[of "map_option Suc read_buff" "map_option Suc write_buff" w2]
  obtain w' where r: "sspi_read_write bus (map_option Suc read_buff) (map_option Suc write_buff) n w2 = Inr w'"
    and l3: "load_addrs (log w') = load_addrs (log w2) @
       (case map_option Suc write_buff of None \<Rightarrow> [] | Some p \<Rightarrow> map (\<lambda>i. p + i) [0..<n])"
      "store_addrs (log w') = store_addrs (log w2) @
       (case map_option Suc read_buff of None \<Rightarrow> [] | Some q \<Rightarrow> map (\<lambda>i. q + i) [0..<n])"
    by blast
  have run: "sspi_read_write bus read_buff write_buff (Suc n) w = Inr w'"
    using ld b r[unfolded w2_def] by simp
  have "load_addrs (log w') = load_addrs (log w) @
       (case write_buff of None \<Rightarrow> [] | Some p \<Rightarrow> map (\<lambda>i. p + i) [0..<Suc n])"
    by (cases write_buff) (simp_all add: l3 l2 l1 l0 upt_shift del: upt_Suc)
  moreover have "store_addrs (log w') = store_addrs (log w) @
       (case read_buff of None \<Rightarrow> [] | Some q \<Rightarrow> map (\<lambda>i. q + i) [0..<Suc n])"
    by (cases read_buff) (simp_all add: l3 l2 l1 l0 upt_shift del: upt_Suc)
  ultimately show ?case using run by blast
qed

lemma byte_wire:
  assumes nn: "0 \<le> word_size bus"
  shows "\<exists>read_byte w' rs. sspi_byte_read_write bus write_byte w = Inr (read_byte, w') \<and>
     mosi_levels (log w') = mosi_levels (log w) @ tx_levels bus write_byte \<and>
     miso_levels (log w') = miso_levels (log w) @ rs \<and>
     length rs = nat (norm_word_size bus) \<and>
     (\<forall>n. bit read_byte n \<longleftrightarrow> n < nat (norm_word_size bus) \<and> rs ! bit_position bus n \<noteq> 0)"
proof -
  from byte_log[OF nn, of write_byte w] obtain rs w'
    where b: "sspi_byte_read_write bus write_byte w =
        Inr (shift_in (lsb bus) (mask_rx bus) 0 rs, w')"
      and lr: "length rs = nat (norm_word_size bus)"
      and l: "log w' = log w @ clock_cycles bus (zip (tx_levels bus write_byte) rs)"
    by blast
  have "mosi_levels (log w') = mosi_levels (log w) @ tx_levels bus write_byte"
    by (simp add: l mosi_levels_cycles lr)
  moreover have "miso_levels (log w') = miso_levels (log w) @ rs"
    by (simp add: l miso_levels_cycles lr)
  moreover note bit_shift_in[OF nn lr] b lr
  ultimately show ?thesis by blast
qed

lemma byte_low_bits:
  assumes nn: "0 \<le> word_size bus"
    and eq: "take_bit (nat (norm_word_size bus)) a = take_bit (nat (norm_word_size bus)) b"
  shows "sspi_byte_read_write bus a w = sspi_byte_read_write bus b w"
proof -
  have "tx_levels bus a = tx_levels bus b"
    using tx_levels_take_bit[of bus a] tx_levels_take_bit[of bus b] eq by simp
  then show ?thesis by (simp add: byte_decomp[OF nn])
qed

lemma test_5bit_87_5A:
  "test_result (test_transfer (test_bus False False False 5) miso_5bit 0x87 0x5A) =
     Some ([0x18, 0x05],
           [bs] @ ''_/'' @ concat (replicate 9 ([bs] @ ''/'')) @ [bs],
           [bs] @ ''____/^^^^^^^^^'' @ [bs] @ ''_/^'' @ [bs] @ ''__'',
           miso_5bit)"
  by code_simp

lemma test_5bit_07_1A:
  "test_result (test_transfer (test_bus False False False 5) miso_5bit 0x07 0x1A) =
     Some ([0x18, 0x05],
           [bs] @ ''_/'' @ concat (replicate 9 ([bs] @ ''/'')) @ [bs],
           [bs] @ ''____/^^^^^^^^^'' @ [bs] @ ''_/^'' @ [bs] @ ''__'',
           miso_5bit)"
  by code_simp

subsection \<open>Runs on the test bench\<close>

lemma mode_0_data:
  "test_data (test_transfer (test_bus False False False 8) miso_8bit 0x87 0x5A) =
     Some ([0x78, 0xA5], [bs] @ ''_/'' @ concat (replicate 15 ([bs] @ ''/'')) @ [bs],
           [0, 128, 0, 0, 0, 0, 128, 128, 128, 0, 128, 0, 128, 128, 0, 128, 0],
           [0, 1, 1, 1, 1, 0, 0, 0, 1, 0, 1, 0, 0, 1, 0, 1])"
  by code_simp

lemma mode_1_data:
  "test_data (test_transfer (test_bus False True False 8) miso_8bit 0x87 0x5A) =
     Some ([0x78, 0xA5], [bs] @ ''_/'' @ concat (replicate 15 ([bs] @ ''/'')) @ [bs],
           [0, 128, 0, 0, 0, 0, 128, 128, 128, 0, 128, 0, 128, 128, 0, 128, 0],
           [0, 1, 1, 1, 1, 0, 0, 0, 1, 0, 1, 0, 0, 1, 0, 1])"
  by code_simp

lemma mode_2_data:
  "test_data (test_transfer (test_bus True False False 8) miso_8bit 0x87 0x5A) =
     Some ([0x78, 0xA5], ''^^'' @ concat (replicate 16 ([bs] @ ''/'')),
           [0, 128, 0, 0, 0, 0, 128, 128, 128, 0, 128, 0, 128, 128, 0, 128, 0],
           [0, 1, 1, 1, 1, 0, 0, 0, 1, 0, 1, 0, 0, 1, 0, 1])"
  by code_simp

lemma mode_3_data:
  "test_data (test_transfer (test_bus True True False 8) miso_8bit 0x87 0x5A) =
     Some ([0x78, 0xA5], ''^^'' @ concat (replicate 16 ([bs] @ ''/'')),
           [0, 128, 0, 0, 0, 0, 128, 128, 128, 0, 128, 0, 128, 128, 0, 128, 0],
           [0, 1, 1, 1, 1, 0, 0, 0, 1, 0, 1, 0, 0, 1, 0, 1])"
  by code_simp

lemma last_bit_run:
  "map_sum id (\<lambda>(read_byte, w). (read_byte, miso_levels (log w)))
     (sspi_byte_read_write (test_bus False False False 8) 0x00 last_bit_high) =
     Inr (0x01, [0, 0, 0, 0, 0, 0, 0, 1])"
  by code_simp

lemma log_test_world [simp]: "log (test_world miso_in b0 b1) = []"
  by (simp add: test_world_def)

section \<open>The claims\<close>

subsection \<open>The bit-clock engine\<close>

text \<open>
  Claim C1.  For every bus and every write bit, \<^verbatim>\<open>sspi_bit_read_write\<close> performs
  exactly one of two callback sequences.  The leading level is the opposite of
  the idle level (\<^verbatim>\<open>HIGH\<close> when \<open>cpol\<close> is clear, \<^verbatim>\<open>LOW\<close> when it is set), the
  trailing level is the idle level.  With \<open>cpha\<close> clear: data-out is set to the
  write bit, half a period passes, the clock goes to the leading level, data-in
  is sampled, half a period passes, the clock goes to the trailing level.  With
  \<open>cpha\<close> set: half a period passes, the clock goes to the leading level and
  data-out is set to the write bit, half a period passes, the clock goes to the
  trailing level, data-in is sampled.  The level sampled is the result; memory
  is not touched, and the state behind the callbacks is the composition of the
  callbacks in this order.
\<close>

theorem sspi_bit_read_write_sequence:
  "let lead_level = (if cpol_1 bus then SSPI_PIN_LOW else SSPI_PIN_HIGH);
       trail_level = (if cpol_1 bus then SSPI_PIN_HIGH else SSPI_PIN_LOW);
       (read_bit, w') = sspi_bit_read_write bus write_bit w
   in lead_level \<noteq> trail_level \<and>
      cells w' = cells w \<and>
      log w' = log w @
        (if cpha_1 bus then
           [Delay, Write_sck lead_level, Write_mosi write_bit, Delay,
            Write_sck trail_level, Read_miso read_bit]
         else
           [Write_mosi write_bit, Delay, Write_sck lead_level, Read_miso read_bit,
            Delay, Write_sck trail_level]) \<and>
      (read_bit, env w') =
        (if cpha_1 bus then
           read_miso bus (write_sck bus trail_level (delay bus
             (write_mosi bus write_bit (write_sck bus lead_level (delay bus (env w))))))
         else
           (case read_miso bus (write_sck bus lead_level (delay bus
                   (write_mosi bus write_bit (env w)))) of
              (state, e) \<Rightarrow> (state, write_sck bus trail_level (delay bus e))))"
  by (simp add: sspi_bit_read_write_def call_defs SSPI_PIN_LOW_def SSPI_PIN_HIGH_def
        Let_def split: prod.splits)

subsection \<open>The four modes\<close>

text \<open>
  Claim C2.  On the test bench, in each of the four modes (\<open>cpol\<close> and \<open>cpha\<close>
  clear or set), most significant bit first and word size 8, the transfer of
  \<^verbatim>\<open>0x87\<close> then \<^verbatim>\<open>0x5A\<close> against a receive line that presents
  \<^verbatim>\<open>___/^^^^^^^\_____/^\_/^\___/^\_/^\<close> reads the bytes \<^verbatim>\<open>0x78\<close> and \<^verbatim>\<open>0xA5\<close>.
  The levels handed to data-out and the levels sampled from data-in are the
  same in the four modes; the clock oscillogram is \<^verbatim>\<open>\_/\/\<close>\<open>\<dots>\<close> with \<open>cpol\<close>
  clear and \<^verbatim>\<open>^^\/\/\<close>\<open>\<dots>\<close> with \<open>cpol\<close> set.
\<close>

theorem four_modes_same_data:
  "test_data (test_transfer (test_bus False False False 8) miso_8bit 0x87 0x5A) =
     Some ([0x78, 0xA5], [bs] @ ''_/'' @ concat (replicate 15 ([bs] @ ''/'')) @ [bs],
           [0, 128, 0, 0, 0, 0, 128, 128, 128, 0, 128, 0, 128, 128, 0, 128, 0],
           [0, 1, 1, 1, 1, 0, 0, 0, 1, 0, 1, 0, 0, 1, 0, 1]) \<and>
   test_data (test_transfer (test_bus False True False 8) miso_8bit 0x87 0x5A) =
     Some ([0x78, 0xA5], [bs] @ ''_/'' @ concat (replicate 15 ([bs] @ ''/'')) @ [bs],
           [0, 128, 0, 0, 0, 0, 128, 128, 128, 0, 128, 0, 128, 128, 0, 128, 0],
           [0, 1, 1, 1, 1, 0, 0, 0, 1, 0, 1, 0, 0, 1, 0, 1]) \<and>
   test_data (test_transfer (test_bus True False False 8) miso_8bit 0x87 0x5A) =
     Some ([0x78, 0xA5], ''^^'' @ concat (replicate 16 ([bs] @ ''/'')),
           [0, 128, 0, 0, 0, 0, 128, 128, 128, 0, 128, 0, 128, 128, 0, 128, 0],
           [0, 1, 1, 1, 1, 0, 0, 0, 1, 0, 1, 0, 0, 1, 0, 1]) \<and>
   test_data (test_transfer (test_bus True True False 8) miso_8bit 0x87 0x5A) =
     Some ([0x78, 0xA5], ''^^'' @ concat (replicate 16 ([bs] @ ''/'')),
           [0, 128, 0, 0, 0, 0, 128, 128, 128, 0, 128, 0, 128, 128, 0, 128, 0],
           [0, 1, 1, 1, 1, 0, 0, 0, 1, 0, 1, 0, 0, 1, 0, 1])"
  by (intro conjI) (rule mode_0_data, rule mode_1_data, rule mode_2_data, rule mode_3_data)

subsection \<open>Bit order\<close>

text \<open>
  Claim C3, as the code has it.  With a word size \<open>w\<close> that is not negative
  before normalization: most significant bit first, the transmit mask is
  \<^verbatim>\<open>1 << (w - 1)\<close> and the receive mask is \<^verbatim>\<open>0x01\<close>; least significant bit
  first, the transmit mask is \<^verbatim>\<open>0x01\<close> and the receive mask is
  \<^verbatim>\<open>1 << (w - 1)\<close>.  After every bit but the last both the write byte and the
  read byte are shifted by one position, to the left for most significant bit
  first and to the right otherwise; after the last bit nothing is shifted.  In
  effect the \<open>k\<close>-th bit on the wire is taken from position \<open>bit_position bus k\<close>
  of the write byte (\<open>w - 1 - k\<close> most significant bit first, \<open>k\<close> otherwise)
  and the \<open>k\<close>-th level sampled decides the same position of the byte returned.
\<close>

theorem byte_bit_order:
  assumes "0 \<le> word_size bus"
  shows
    "mask_tx bus = (if lsb bus then 0x01 else push_bit (nat (norm_word_size bus - 1)) 1) \<and>
     mask_rx bus = (if lsb bus then push_bit (nat (norm_word_size bus - 1)) 1 else 0x01) \<and>
     (\<forall>bit_idx a rb. bit_idx < norm_word_size bus - 1 \<longrightarrow>
        sspi_byte_loop bus (norm_word_size bus) (mask_tx bus) (mask_rx bus) bit_idx a rb w =
          (case sspi_bit_read_write bus (uint (a AND mask_tx bus)) w of
             (r, w1) \<Rightarrow>
               sspi_byte_loop bus (norm_word_size bus) (mask_tx bus) (mask_rx bus) (bit_idx + 1)
                 (if lsb bus then drop_bit 1 a else push_bit 1 a)
                 (if lsb bus then drop_bit 1 (rb OR (if r \<noteq> 0 then mask_rx bus else 0))
                  else push_bit 1 (rb OR (if r \<noteq> 0 then mask_rx bus else 0)))
                 w1)) \<and>
     (\<forall>a rb.
        sspi_byte_loop bus (norm_word_size bus) (mask_tx bus) (mask_rx bus)
            (norm_word_size bus - 1) a rb w =
          (case sspi_bit_read_write bus (uint (a AND mask_tx bus)) w of
             (r, w1) \<Rightarrow> (rb OR (if r \<noteq> 0 then mask_rx bus else 0), w1))) \<and>
     (\<exists>read_byte w' rs. sspi_byte_read_write bus write_byte w = Inr (read_byte, w') \<and>
        mosi_levels (log w') = mosi_levels (log w) @ tx_levels bus write_byte \<and>
        miso_levels (log w') = miso_levels (log w) @ rs \<and>
        length rs = nat (norm_word_size bus) \<and>
        (\<forall>n. bit read_byte n \<longleftrightarrow>
               n < nat (norm_word_size bus) \<and> rs ! bit_position bus n \<noteq> 0))"
proof (intro conjI allI impI)
  show "mask_tx bus = (if lsb bus then 0x01 else push_bit (nat (norm_word_size bus - 1)) 1)"
    unfolding mask_tx_def word_msb_mask_def by (rule refl)
  show "mask_rx bus = (if lsb bus then push_bit (nat (norm_word_size bus - 1)) 1 else 0x01)"
    unfolding mask_rx_def word_msb_mask_def by (rule refl)
next
  fix bit_idx :: int and a rb :: u8
  assume "bit_idx < norm_word_size bus - 1"
  from loop_step[OF this, of bus "mask_tx bus" "mask_rx bus" a rb w]
  show "sspi_byte_loop bus (norm_word_size bus) (mask_tx bus) (mask_rx bus) bit_idx a rb w =
          (case sspi_bit_read_write bus (uint (a AND mask_tx bus)) w of
             (r, w1) \<Rightarrow>
               sspi_byte_loop bus (norm_word_size bus) (mask_tx bus) (mask_rx bus) (bit_idx + 1)
                 (if lsb bus then drop_bit 1 a else push_bit 1 a)
                 (if lsb bus then drop_bit 1 (rb OR (if r \<noteq> 0 then mask_rx bus else 0))
                  else push_bit 1 (rb OR (if r \<noteq> 0 then mask_rx bus else 0)))
                 w1)"
    unfolding shift1_def rx_bit_def .
next
  fix a rb :: u8
  from loop_last[OF refl, of bus "norm_word_size bus" "mask_tx bus" "mask_rx bus" a rb w]
  show "sspi_byte_loop bus (norm_word_size bus) (mask_tx bus) (mask_rx bus)
            (norm_word_size bus - 1) a rb w =
          (case sspi_bit_read_write bus (uint (a AND mask_tx bus)) w of
             (r, w1) \<Rightarrow> (rb OR (if r \<noteq> 0 then mask_rx bus else 0), w1))"
    unfolding rx_bit_def .
next
  show "\<exists>read_byte w' rs. sspi_byte_read_write bus write_byte w = Inr (read_byte, w') \<and>
        mosi_levels (log w') = mosi_levels (log w) @ tx_levels bus write_byte \<and>
        miso_levels (log w') = miso_levels (log w) @ rs \<and>
        length rs = nat (norm_word_size bus) \<and>
        (\<forall>n. bit read_byte n \<longleftrightarrow>
               n < nat (norm_word_size bus) \<and> rs ! bit_position bus n \<noteq> 0)"
    by (rule byte_wire[OF assms])
qed

theorem byte_bit_order_witness:
  "0 \<le> word_size (test_bus False False False 5) \<and>
   mask_tx (test_bus False False False 5) = 0x10 \<and>
   mask_rx (test_bus False False False 5) = 0x01 \<and>
   (0 :: int) < norm_word_size (test_bus False False False 5) - 1 \<and>
   sspi_byte_loop (test_bus False False False 5) 5 0x10 0x01 0 0x87 0x00
       (test_world miso_5bit 0x87 0x5A) =
     (case sspi_bit_read_write (test_bus False False False 5) (uint (0x87 AND 0x10 :: u8))
             (test_world miso_5bit 0x87 0x5A) of
        (r, w1) \<Rightarrow>
          sspi_byte_loop (test_bus False False False 5) 5 0x10 0x01 1
            (push_bit 1 0x87) (push_bit 1 (0x00 OR (if r \<noteq> 0 then 0x01 else 0))) w1) \<and>
   (\<exists>read_byte w' rs.
      sspi_byte_read_write (test_bus False False False 5) 0x87 (test_world miso_5bit 0x87 0x5A) =
        Inr (read_byte, w') \<and>
      mosi_levels (log w') = [0, 0, 16, 16, 16] \<and>
      miso_levels (log w') = rs \<and> length rs = 5 \<and>
      (bit read_byte 4 \<longleftrightarrow> rs ! 0 \<noteq> 0) \<and> (bit read_byte 0 \<longleftrightarrow> rs ! 4 \<noteq> 0) \<and>
      \<not> bit read_byte 5)"
proof -
  let ?B = "test_bus False False False 5"
  let ?W = "test_world miso_5bit 0x87 0x5A"
  have h: "0 \<le> word_size ?B" by (simp add: test_bus_def)
  have n: "norm_word_size ?B = 5" by (simp add: test_bus_def norm_word_size_def)
  have l: "\<not> lsb ?B" by (simp add: test_bus_def)
  have p: "bit_position ?B k = 4 - k" for k by (simp add: bit_position_def l n)
  have t: "tx_levels ?B 0x87 = [0, 0, 16, 16, 16]"
    by (simp add: tx_levels_def n p upt_conv_Cons bit_numeral_simps)
       (simp add: mask_tx_def l n word_msb_mask_def)
  note T = byte_bit_order[OF h, where w = ?W and write_byte = "0x87"]
  from T have m1: "mask_tx ?B = 0x10" and m2: "mask_rx ?B = 0x01"
    by (simp_all add: l n)
  from T have step: "\<forall>bit_idx a rb. bit_idx < norm_word_size ?B - 1 \<longrightarrow>
        sspi_byte_loop ?B (norm_word_size ?B) (mask_tx ?B) (mask_rx ?B) bit_idx a rb ?W =
          (case sspi_bit_read_write ?B (uint (a AND mask_tx ?B)) ?W of
             (r, w1) \<Rightarrow>
               sspi_byte_loop ?B (norm_word_size ?B) (mask_tx ?B) (mask_rx ?B) (bit_idx + 1)
                 (if lsb ?B then drop_bit 1 a else push_bit 1 a)
                 (if lsb ?B then drop_bit 1 (rb OR (if r \<noteq> 0 then mask_rx ?B else 0))
                  else push_bit 1 (rb OR (if r \<noteq> 0 then mask_rx ?B else 0)))
                 w1)"
    by blast
  have s0: "sspi_byte_loop ?B 5 0x10 0x01 0 0x87 0x00 ?W =
     (case sspi_bit_read_write ?B (uint (0x87 AND 0x10 :: u8)) ?W of
        (r, w1) \<Rightarrow>
          sspi_byte_loop ?B 5 0x10 0x01 1
            (push_bit 1 0x87) (push_bit 1 (0x00 OR (if r \<noteq> 0 then 0x01 else 0))) w1)"
    using step[rule_format, of 0 "0x87" "0x00"] unfolding n m1 m2 using l
    by (simp del: push_bit_of_Suc_0 cong: prod.case_cong)
  from T obtain read_byte w' rs
    where r: "sspi_byte_read_write ?B 0x87 ?W = Inr (read_byte, w')"
      "mosi_levels (log w') = mosi_levels (log ?W) @ tx_levels ?B 0x87"
      "miso_levels (log w') = miso_levels (log ?W) @ rs"
      "length rs = nat (norm_word_size ?B)"
      "\<forall>n. bit read_byte n \<longleftrightarrow> n < nat (norm_word_size ?B) \<and> rs ! bit_position ?B n \<noteq> 0"
    by blast
  from r(5) have b: "bit read_byte 4 \<longleftrightarrow> rs ! 0 \<noteq> 0" "bit read_byte 0 \<longleftrightarrow> rs ! 4 \<noteq> 0"
    "\<not> bit read_byte 5"
    by (simp_all add: n p)
  have ex: "\<exists>read_byte w' rs.
      sspi_byte_read_write ?B 0x87 ?W = Inr (read_byte, w') \<and>
      mosi_levels (log w') = [0, 0, 16, 16, 16] \<and>
      miso_levels (log w') = rs \<and> length rs = 5 \<and>
      (bit read_byte 4 \<longleftrightarrow> rs ! 0 \<noteq> 0) \<and> (bit read_byte 0 \<longleftrightarrow> rs ! 4 \<noteq> 0) \<and>
      \<not> bit read_byte 5"
    using r(1-4) b by (intro exI[of _ read_byte] exI[of _ w'] exI[of _ rs]) (simp add: t n)
  have lt: "(0 :: int) < norm_word_size ?B - 1" by (simp add: n)
  from h m1 m2 lt s0 ex show ?thesis by (intro conjI)
qed

text \<open>
  Most significant bit first with eight bits the receive mask is \<^verbatim>\<open>0x01\<close>,
  not the transmit mask \<^verbatim>\<open>0x80\<close>: a level that is high in the eighth cycle
  only comes back as \<^verbatim>\<open>0x01\<close>, bit 7 clear.
\<close>

theorem msb_first_receive_mask_counterexample:
  "\<not> lsb (test_bus False False False 8) \<and>
   norm_word_size (test_bus False False False 8) = 8 \<and>
   mask_tx (test_bus False False False 8) = 0x80 \<and>
   mask_rx (test_bus False False False 8) = 0x01 \<and>
   mask_rx (test_bus False False False 8) \<noteq> mask_tx (test_bus False False False 8) \<and>
   map_sum id (\<lambda>(read_byte, w). (read_byte, miso_levels (log w)))
     (sspi_byte_read_write (test_bus False False False 8) 0x00 last_bit_high) =
     Inr (0x01, [0, 0, 0, 0, 0, 0, 0, 1]) \<and>
   \<not> bit (0x01 :: u8) 7"
  using last_bit_run
  by (simp add: test_bus_def norm_word_size_def mask_tx_def mask_rx_def word_msb_mask_def)

subsection \<open>Truncation to the word size\<close>

text \<open>
  Claim C4.  For a word size \<open>w\<close> from 1 to 8, either bit order and every write
  byte, the byte returned has no bit set at a position \<open>w\<close> or above, and the
  whole result of the byte routine (the byte and the world with its events) is
  the one for the low \<open>w\<close> bits of the write byte: two write bytes that agree
  on their low \<open>w\<close> bits cannot be told apart.  With word size 5 the bytes
  \<^verbatim>\<open>0x87\<close> and \<^verbatim>\<open>0x5A\<close> behave as \<^verbatim>\<open>0x07\<close> and \<^verbatim>\<open>0x1A\<close>; on the test bench,
  most significant bit first, both pairs read \<^verbatim>\<open>{0x18, 0x05}\<close> with the same
  oscillograms.
\<close>

theorem word_size_truncation:
  "(1 \<le> word_size bus \<and> word_size bus \<le> 8 \<longrightarrow>
      (\<exists>read_byte w'. sspi_byte_read_write bus write_byte w = Inr (read_byte, w') \<and>
         (\<forall>n. nat (word_size bus) \<le> n \<longrightarrow> \<not> bit read_byte n)) \<and>
      sspi_byte_read_write bus write_byte w =
        sspi_byte_read_write bus (take_bit (nat (word_size bus)) write_byte) w \<and>
      (\<forall>other. take_bit (nat (word_size bus)) other = take_bit (nat (word_size bus)) write_byte \<longrightarrow>
         sspi_byte_read_write bus other w = sspi_byte_read_write bus write_byte w)) \<and>
   (word_size bus = 5 \<longrightarrow>
      sspi_byte_read_write bus 0x87 w = sspi_byte_read_write bus 0x07 w \<and>
      sspi_byte_read_write bus 0x5A w = sspi_byte_read_write bus 0x1A w) \<and>
   test_result (test_transfer (test_bus False False False 5) miso_5bit 0x87 0x5A) =
     test_result (test_transfer (test_bus False False False 5) miso_5bit 0x07 0x1A) \<and>
   test_result (test_transfer (test_bus False False False 5) miso_5bit 0x87 0x5A) =
     Some ([0x18, 0x05],
           [bs] @ ''_/'' @ concat (replicate 9 ([bs] @ ''/'')) @ [bs],
           [bs] @ ''____/^^^^^^^^^'' @ [bs] @ ''_/^'' @ [bs] @ ''__'',
           miso_5bit)"
proof (intro conjI impI allI)
  assume r: "1 \<le> word_size bus \<and> word_size bus \<le> 8"
  then have nn: "0 \<le> word_size bus" and n: "norm_word_size bus = word_size bus"
    by (auto simp add: norm_word_size_def)
  from byte_wire[OF nn, of write_byte w]
  show "\<exists>read_byte w'. sspi_byte_read_write bus write_byte w = Inr (read_byte, w') \<and>
         (\<forall>n. nat (word_size bus) \<le> n \<longrightarrow> \<not> bit read_byte n)"
  proof (elim exE conjE)
    fix read_byte w' rs
    assume b: "sspi_byte_read_write bus write_byte w = Inr (read_byte, w')"
      and bits: "\<forall>k. bit read_byte k \<longleftrightarrow>
        k < nat (norm_word_size bus) \<and> rs ! bit_position bus k \<noteq> 0"
    from bits have z: "\<forall>k. nat (word_size bus) \<le> k \<longrightarrow> \<not> bit read_byte k"
      by (simp add: n)
    show ?thesis
      by (intro exI[of _ read_byte] exI[of _ w'] conjI) (rule b, rule z)
  qed
  show "sspi_byte_read_write bus write_byte w =
        sspi_byte_read_write bus (take_bit (nat (word_size bus)) write_byte) w"
    by (rule byte_low_bits[OF nn]) (simp add: n)
  fix other :: u8
  assume "take_bit (nat (word_size bus)) other = take_bit (nat (word_size bus)) write_byte"
  then show "sspi_byte_read_write bus other w = sspi_byte_read_write bus write_byte w"
    by (intro byte_low_bits[OF nn]) (simp add: n)
next
  assume ws: "word_size bus = 5"
  then have nn: "0 \<le> word_size bus" and n: "nat (norm_word_size bus) = 5"
    by (simp_all add: norm_word_size_def)
  have t1: "take_bit 5 (0x87 :: u8) = take_bit 5 0x07"
    and t2: "take_bit 5 (0x5A :: u8) = take_bit 5 0x1A"
    by simp_all
  show "sspi_byte_read_write bus 0x87 w = sspi_byte_read_write bus 0x07 w"
    by (rule byte_low_bits[OF nn]) (simp only: n t1)
  show "sspi_byte_read_write bus 0x5A w = sspi_byte_read_write bus 0x1A w"
    by (rule byte_low_bits[OF nn]) (simp only: n t2)
next
  show "test_result (test_transfer (test_bus False False False 5) miso_5bit 0x87 0x5A) =
     test_result (test_transfer (test_bus False False False 5) miso_5bit 0x07 0x1A)"
    by (simp only: test_5bit_87_5A test_5bit_07_1A)
  show "test_result (test_transfer (test_bus False False False 5) miso_5bit 0x87 0x5A) =
     Some ([0x18, 0x05],
           [bs] @ ''_/'' @ concat (replicate 9 ([bs] @ ''/'')) @ [bs],
           [bs] @ ''____/^^^^^^^^^'' @ [bs] @ ''_/^'' @ [bs] @ ''__'',
           miso_5bit)"
    by (rule test_5bit_87_5A)
qed

theorem word_size_truncation_witness:
  "1 \<le> word_size (test_bus False True True 3) \<and> word_size (test_bus False True True 3) \<le> 8 \<and>
   (\<exists>read_byte w'.
      sspi_byte_read_write (test_bus False True True 3) 0xFD (test_world miso_5bit 0x87 0x5A) =
        Inr (read_byte, w') \<and> \<not> bit read_byte 3 \<and> \<not> bit read_byte 7) \<and>
   take_bit 3 (0xFD :: u8) = 0x05 \<and>
   sspi_byte_read_write (test_bus False True True 3) 0xFD (test_world miso_5bit 0x87 0x5A) =
     sspi_byte_read_write (test_bus False True True 3) 0x05 (test_world miso_5bit 0x87 0x5A) \<and>
   word_size (test_bus False False False 5) = 5 \<and>
   sspi_byte_read_write (test_bus False False False 5) 0x87 (test_world miso_5bit 0x87 0x5A) =
     sspi_byte_read_write (test_bus False False False 5) 0x07 (test_world miso_5bit 0x87 0x5A)"
proof -
  let ?B = "test_bus False True True 3"
  let ?C = "test_bus False False False 5"
  let ?W = "test_world miso_5bit 0x87 0x5A"
  have h: "1 \<le> word_size ?B \<and> word_size ?B \<le> 8" and n: "nat (word_size ?B) = 3"
    by (simp_all add: test_bus_def)
  have c: "word_size ?C = 5" by (simp add: test_bus_def)
  have t: "take_bit 3 (0xFD :: u8) = 0x05"
    by simp
  note T = word_size_truncation[where bus = ?B and write_byte = "0xFD" and w = ?W]
  note U = word_size_truncation[where bus = ?C and write_byte = "0x87" and w = ?W]
  note T1 = T[THEN conjunct1, THEN mp, OF h]
  from T1[THEN conjunct1]
  have ex: "\<exists>read_byte w'. sspi_byte_read_write ?B 0xFD ?W = Inr (read_byte, w') \<and>
      \<not> bit read_byte 3 \<and> \<not> bit read_byte 7"
  proof (elim exE conjE)
    fix read_byte w'
    assume r: "sspi_byte_read_write ?B 0xFD ?W = Inr (read_byte, w')"
      and z: "\<forall>k. nat (word_size ?B) \<le> k \<longrightarrow> \<not> bit read_byte k"
    from z have "\<not> bit read_byte 3" "\<not> bit read_byte 7" by (simp_all add: n)
    with r show ?thesis by (intro exI[of _ read_byte] exI[of _ w'] conjI)
  qed
  from T1[THEN conjunct2, THEN conjunct1]
  have e: "sspi_byte_read_write ?B 0xFD ?W = sspi_byte_read_write ?B 0x05 ?W"
    by (simp only: n t)
  from U[THEN conjunct2, THEN conjunct1, THEN mp, OF c, THEN conjunct1]
  have f: "sspi_byte_read_write ?C 0x87 ?W = sspi_byte_read_write ?C 0x07 ?W" .
  from h[THEN conjunct1] h[THEN conjunct2] ex t e c f show ?thesis by (intro conjI)
qed

subsection \<open>The transfer\<close>

text \<open>
  Claim C5.  \<^verbatim>\<open>sspi_read_write\<close> is the transfer of the specification: \<open>n\<close>
  iterations, each taking the next byte of the write buffer if there is one and
  \<^verbatim>\<open>0x00\<close> otherwise, running the word composer once and storing the byte it
  returns at the next position of the read buffer if there is one.  With a
  word size that is not negative the addresses loaded are those of the first
  \<open>n\<close> bytes of the write buffer in order (none without a write buffer), the
  addresses stored to are those of the first \<open>n\<close> bytes of the read buffer in
  order (none without a read buffer), and a transfer without a write buffer
  hands only the level zero to data-out.
\<close>

theorem transfer_iterations:
  "sspi_read_write bus read_buff write_buff n w = transfer bus read_buff write_buff n w \<and>
   (0 \<le> word_size bus \<longrightarrow>
      (\<exists>w'. sspi_read_write bus read_buff write_buff n w = Inr w' \<and>
         load_addrs (log w') = load_addrs (log w) @
           (case write_buff of None \<Rightarrow> [] | Some p \<Rightarrow> map (\<lambda>i. p + i) [0..<n]) \<and>
         store_addrs (log w') = store_addrs (log w) @
           (case read_buff of None \<Rightarrow> [] | Some q \<Rightarrow> map (\<lambda>i. q + i) [0..<n])) \<and>
      (\<exists>w'. sspi_read_write bus read_buff None n w = Inr w' \<and>
         mosi_levels (log w') =
           mosi_levels (log w) @ replicate (n * nat (norm_word_size bus)) SSPI_PIN_LOW))"
proof (intro conjI impI)
  have "map_option (\<lambda>q. q + 0) b = b" for b :: "addr option"
    by (cases b) simp_all
  with read_write_transfer_from[of bus 0 read_buff write_buff n w]
  show "sspi_read_write bus read_buff write_buff n w = transfer bus read_buff write_buff n w"
    by (simp add: transfer_def)
next
  assume "0 \<le> word_size bus"
  then show "\<exists>w'. sspi_read_write bus read_buff write_buff n w = Inr w' \<and>
         load_addrs (log w') = load_addrs (log w) @
           (case write_buff of None \<Rightarrow> [] | Some p \<Rightarrow> map (\<lambda>i. p + i) [0..<n]) \<and>
         store_addrs (log w') = store_addrs (log w) @
           (case read_buff of None \<Rightarrow> [] | Some q \<Rightarrow> map (\<lambda>i. q + i) [0..<n])"
    by (rule transfer_accesses)
next
  assume "0 \<le> word_size bus"
  then show "\<exists>w'. sspi_read_write bus read_buff None n w = Inr w' \<and>
         mosi_levels (log w') =
           mosi_levels (log w) @ replicate (n * nat (norm_word_size bus)) SSPI_PIN_LOW"
    unfolding SSPI_PIN_LOW_def by (rule read_only_zero)
qed

theorem transfer_iterations_witness:
  "0 \<le> word_size (test_bus False False False 8) \<and>
   (\<exists>w'. sspi_read_write (test_bus False False False 8) (Some rd_buff) (Some wr_buff) 2
            (test_world miso_8bit 0x87 0x5A) = Inr w' \<and>
      load_addrs (log w') = [wr_buff, wr_buff + 1] \<and>
      store_addrs (log w') = [rd_buff, rd_buff + 1]) \<and>
   (\<exists>w'. sspi_read_write (test_bus False False False 8) (Some rd_buff) None 2
            (test_world miso_8bit 0x87 0x5A) = Inr w' \<and>
      mosi_levels (log w') = replicate 16 0)"
proof -
  have h: "0 \<le> word_size (test_bus False False False 8)"
    by (simp add: test_bus_def)
  have n: "norm_word_size (test_bus False False False 8) = 8"
    by (simp add: test_bus_def norm_word_size_def)
  have u: "[0..<2] = [0, 1]" by (simp add: upt_conv_Cons)
  from transfer_iterations[of "test_bus False False False 8" "Some rd_buff" "Some wr_buff" 2
      "test_world miso_8bit 0x87 0x5A", THEN conjunct2] h
  show ?thesis
    by (simp add: n u SSPI_PIN_LOW_def)
qed

text \<open>
  Claim C6.  With a word size that is not negative and normalized to \<open>w\<close>, a
  transfer of \<open>n\<close> bytes returns, and the callbacks it has invoked are \<open>n * w\<close>
  bit-clock cycles one after the other, hence \<open>2 * n * w\<close> waits of half a
  period.
\<close>

theorem transfer_clock_cycles:
  assumes "0 \<le> word_size bus"
  shows "\<exists>w' evs xrs. sspi_read_write bus read_buff write_buff n w = Inr w' \<and>
     log w' = log w @ evs \<and>
     filter is_callback evs = clock_cycles bus xrs \<and>
     length xrs = n * nat (norm_word_size bus) \<and>
     length (filter (\<lambda>ev. ev = Delay) evs) = 2 * n * nat (norm_word_size bus)"
proof -
  from transfer_log[OF assms, of read_buff write_buff n w]
  obtain w' evs xrs where r: "sspi_read_write bus read_buff write_buff n w = Inr w'"
    "log w' = log w @ evs" "filter is_callback evs = clock_cycles bus xrs"
    "length xrs = n * nat (norm_word_size bus)"
    by blast
  from delays_count[OF r(3)] r(4)
  have "length (filter (\<lambda>ev. ev = Delay) evs) = 2 * n * nat (norm_word_size bus)" by simp
  with r show ?thesis by blast
qed

theorem transfer_clock_cycles_witness:
  "0 \<le> word_size (test_bus False True False 5) \<and>
   (\<exists>w' evs xrs. sspi_read_write (test_bus False True False 5) (Some rd_buff) (Some wr_buff) 2
            (test_world miso_8bit 0x87 0x5A) = Inr w' \<and>
      log w' = evs \<and>
      filter is_callback evs = clock_cycles (test_bus False True False 5) xrs \<and>
      length xrs = 10 \<and>
      length (filter (\<lambda>ev. ev = Delay) evs) = 20)"
proof -
  have h: "0 \<le> word_size (test_bus False True False 5)"
    by (simp add: test_bus_def)
  have n: "norm_word_size (test_bus False True False 5) = 5"
    by (simp add: test_bus_def norm_word_size_def)
  from transfer_clock_cycles[OF h, of "Some rd_buff" "Some wr_buff" 2
      "test_world miso_8bit 0x87 0x5A"] h
  show ?thesis
    by (simp add: n)
qed

text \<open>
  Claim C7, as the code has it.  With a word size that is not negative, and
  provided no byte stored through the read buffer lands on a byte of the write
  buffer that is still to be transmitted (\<open>q + i \<noteq> p + j\<close> for \<open>i < j < n\<close>, as
  for buffers that are disjoint and for a transfer in place), the run with a
  null read buffer and the run with the read buffer at \<open>q\<close> invoke set-clock and
  set-data-out with the same levels in the same order and leave the same state
  behind the callbacks; the run with a null read buffer stores nothing and
  leaves memory as it was.
\<close>

theorem null_read_buffer_waveform:
  assumes "0 \<le> word_size bus"
    and "\<And>p i j. write_buff = Some p \<Longrightarrow> i < j \<Longrightarrow> j < n \<Longrightarrow> q + i \<noteq> p + j"
  shows "\<exists>w1 w2. sspi_read_write bus None write_buff n w = Inr w1 \<and>
     sspi_read_write bus (Some q) write_buff n w = Inr w2 \<and>
     waveform (log w1) = waveform (log w2) \<and>
     env w1 = env w2 \<and>
     cells w1 = cells w \<and>
     filter is_store (log w1) = filter is_store (log w)"
proof -
  from null_read_buffer[OF assms(1) refl refl refl assms(2), of write_buff n w]
  show ?thesis by blast
qed

theorem null_read_buffer_waveform_witness:
  "0 \<le> word_size (test_bus False False False 8) \<and>
   rd_buff + 0 \<noteq> wr_buff + 1 \<and>
   wr_buff + 0 \<noteq> wr_buff + 1 \<and>
   (\<exists>w1 w2. sspi_read_write (test_bus False False False 8) None (Some wr_buff) 2
               (test_world miso_8bit 0x87 0x5A) = Inr w1 \<and>
      sspi_read_write (test_bus False False False 8) (Some rd_buff) (Some wr_buff) 2
               (test_world miso_8bit 0x87 0x5A) = Inr w2 \<and>
      waveform (log w1) = waveform (log w2) \<and>
      filter is_store (log w1) = []) \<and>
   (\<exists>w1 w2. sspi_read_write (test_bus False False False 8) None (Some wr_buff) 2
               (test_world miso_8bit 0x87 0x5A) = Inr w1 \<and>
      sspi_read_write (test_bus False False False 8) (Some wr_buff) (Some wr_buff) 2
               (test_world miso_8bit 0x87 0x5A) = Inr w2 \<and>
      waveform (log w1) = waveform (log w2) \<and>
      filter is_store (log w1) = [])"
proof -
  have h: "0 \<le> word_size (test_bus False False False 8)"
    by (simp add: test_bus_def)
  have d: "rd_buff + i \<noteq> p + j" if "Some wr_buff = Some p" "i < j" "j < 2" for p i j
    using that by (simp add: rd_buff_def wr_buff_def)
  have s: "wr_buff + i \<noteq> p + j" if "Some wr_buff = Some p" "i < j" "j < 2" for p i j
    using that by simp
  have D: "rd_buff + 0 \<noteq> wr_buff + 1"
    by (rule d) simp_all
  have S: "wr_buff + 0 \<noteq> wr_buff + 1"
    by (rule s) simp_all
  from null_read_buffer_waveform[OF h d, of "Some wr_buff" 2 "test_world miso_8bit 0x87 0x5A"]
  have A: "\<exists>w1 w2. sspi_read_write (test_bus False False False 8) None (Some wr_buff) 2
               (test_world miso_8bit 0x87 0x5A) = Inr w1 \<and>
      sspi_read_write (test_bus False False False 8) (Some rd_buff) (Some wr_buff) 2
               (test_world miso_8bit 0x87 0x5A) = Inr w2 \<and>
      waveform (log w1) = waveform (log w2) \<and>
      filter is_store (log w1) = []"
    by auto
  from null_read_buffer_waveform[OF h s, of "Some wr_buff" 2 "test_world miso_8bit 0x87 0x5A"]
  have B: "\<exists>w1 w2. sspi_read_write (test_bus False False False 8) None (Some wr_buff) 2
               (test_world miso_8bit 0x87 0x5A) = Inr w1 \<and>
      sspi_read_write (test_bus False False False 8) (Some wr_buff) (Some wr_buff) 2
               (test_world miso_8bit 0x87 0x5A) = Inr w2 \<and>
      waveform (log w1) = waveform (log w2) \<and>
      filter is_store (log w1) = []"
    by auto
  from h D S A B show ?thesis by (intro conjI)
qed

text \<open>
  A read buffer that starts one byte after the write buffer: the byte read in
  the first iteration (\<^verbatim>\<open>0xFF\<close>, MISO being pulled up) replaces the second byte
  to transmit, and data-out differs from the run with a null read buffer.
\<close>

theorem overlapping_buffers_counterexample:
  "map_sum id (\<lambda>w. mosi_levels (log w))
     (sspi_read_write (test_bus False False False 8) None (Some wr_buff) 2 idle_world)
     = Inr (replicate 16 0) \<and>
   map_sum id (\<lambda>w. mosi_levels (log w))
     (sspi_read_write (test_bus False False False 8) (Some (Suc wr_buff)) (Some wr_buff) 2 idle_world)
     = Inr (replicate 8 0 @ replicate 8 128) \<and>
   map_sum id (\<lambda>w. waveform (log w))
     (sspi_read_write (test_bus False False False 8) None (Some wr_buff) 2 idle_world)
     \<noteq>
   map_sum id (\<lambda>w. waveform (log w))
     (sspi_read_write (test_bus False False False 8) (Some (Suc wr_buff)) (Some wr_buff) 2 idle_world)"
  by code_simp

subsection \<open>Reset\<close>

text \<open>
  Claim C8.  \<^verbatim>\<open>sspi_reset\<close> drives the clock to its idle level (\<^verbatim>\<open>HIGH\<close> when
  \<open>cpol\<close> is set, \<^verbatim>\<open>LOW\<close> otherwise) and then data-out to \<^verbatim>\<open>LOW\<close>; these two calls
  are all it does: it samples nothing, waits for nothing and leaves memory
  alone.  Any number of calls in succession repeat the same two calls, and the
  levels of the two lines after one or more calls are those after a single
  call: the clock idle and data-out low.
\<close>

theorem sspi_reset_idle:
  "let idle = (if cpol_1 bus then SSPI_PIN_HIGH else SSPI_PIN_LOW)
   in log (sspi_reset bus w) = log w @ [Write_sck idle, Write_mosi SSPI_PIN_LOW] \<and>
      env (sspi_reset bus w) = write_mosi bus SSPI_PIN_LOW (write_sck bus idle (env w)) \<and>
      cells (sspi_reset bus w) = cells w \<and>
      log ((sspi_reset bus ^^ k) w) =
        log w @ concat (replicate k [Write_sck idle, Write_mosi SSPI_PIN_LOW]) \<and>
      line_levels (log ((sspi_reset bus ^^ Suc k) w)) = (Some idle, Some SSPI_PIN_LOW) \<and>
      line_levels (log ((sspi_reset bus ^^ Suc k) w)) = line_levels (log (sspi_reset bus w))"
proof -
  have l1: "line_levels (log ((sspi_reset bus ^^ Suc k) w)) =
      (Some (if cpol_1 bus then SSPI_PIN_HIGH else SSPI_PIN_LOW), Some SSPI_PIN_LOW)"
    by (simp only: funpow.simps o_apply reset_log line_levels_driven)
  have l2: "line_levels (log (sspi_reset bus w)) =
      (Some (if cpol_1 bus then SSPI_PIN_HIGH else SSPI_PIN_LOW), Some SSPI_PIN_LOW)"
    by (simp only: reset_log line_levels_driven)
  have e: "env (sspi_reset bus w) =
      write_mosi bus SSPI_PIN_LOW
        (write_sck bus (if cpol_1 bus then SSPI_PIN_HIGH else SSPI_PIN_LOW) (env w))"
    and c: "cells (sspi_reset bus w) = cells w"
    by (simp_all add: sspi_reset_def call_defs)
  show ?thesis
    unfolding Let_def
    by (intro conjI)
       (fact reset_log, fact e, fact c, fact reset_repeated_log, fact l1, simp only: l1 l2)
qed

subsection \<open>The word size\<close>

text \<open>
  Claim C9.  With \<^verbatim>\<open>word_size\<close> 0, or 8 or more, the byte routine does exactly
  what it does with \<^verbatim>\<open>word_size\<close> 8: the same byte comes back and the world,
  with its sequence of events, is the same; and it does return a byte.
\<close>

theorem word_size_default:
  assumes "word_size bus = 0 \<or> 8 \<le> word_size bus"
  shows "sspi_byte_read_write bus write_byte w =
           sspi_byte_read_write (bus\<lparr>word_size := 8\<rparr>) write_byte w \<and>
         (\<exists>read_byte w'. sspi_byte_read_write bus write_byte w = Inr (read_byte, w'))"
proof -
  from assms have nn: "0 \<le> word_size bus" by auto
  from assms have n: "norm_word_size bus = 8" "norm_word_size (bus\<lparr>word_size := 8\<rparr>) = 8"
    by (auto simp add: norm_word_size_def)
  then have m: "mask_tx (bus\<lparr>word_size := 8\<rparr>) = mask_tx bus"
    "mask_rx (bus\<lparr>word_size := 8\<rparr>) = mask_rx bus"
    by (simp_all add: mask_tx_def mask_rx_def)
  have t: "tx_levels (bus\<lparr>word_size := 8\<rparr>) write_byte = tx_levels bus write_byte"
    by (simp add: tx_levels_def bit_position_def n m)
  have "sspi_byte_read_write bus write_byte w =
      sspi_byte_read_write (bus\<lparr>word_size := 8\<rparr>) write_byte w"
    by (simp add: byte_decomp[OF nn] byte_decomp[of "bus\<lparr>word_size := 8\<rparr>"] t m)
  moreover have "\<exists>read_byte w'. sspi_byte_read_write bus write_byte w = Inr (read_byte, w')"
    by (simp add: byte_decomp[OF nn] split: prod.splits)
  ultimately show ?thesis by simp
qed

theorem word_size_default_witness:
  "(word_size (test_bus False False False 0) = 0 \<or> 8 \<le> word_size (test_bus False False False 0)) \<and>
   sspi_byte_read_write (test_bus False False False 0) 0x87 (test_world miso_8bit 0x87 0x5A) =
     sspi_byte_read_write (test_bus False False False 8) 0x87 (test_world miso_8bit 0x87 0x5A) \<and>
   (word_size (test_bus True True True 9) = 0 \<or> 8 \<le> word_size (test_bus True True True 9)) \<and>
   sspi_byte_read_write (test_bus True True True 9) 0x87 (test_world miso_8bit 0x87 0x5A) =
     sspi_byte_read_write (test_bus True True True 8) 0x87 (test_world miso_8bit 0x87 0x5A)"
  using word_size_default[where bus = "test_bus False False False 0" and write_byte = "0x87"
      and w = "test_world miso_8bit 0x87 0x5A"]
    word_size_default[where bus = "test_bus True True True 9" and write_byte = "0x87"
      and w = "test_world miso_8bit 0x87 0x5A"]
  by (simp add: test_bus_def)

text \<open>
  Claim C10.  When \<^verbatim>\<open>word_size\<close> is not negative the word size the byte routine
  works with lies between 1 and 8, so the count of the shift
  \<^verbatim>\<open>1 << (word_size - 1)\<close> lies between 0 and 7 and the routine returns a byte.
  A negative \<^verbatim>\<open>word_size\<close> passes the test \<^verbatim>\<open>word_size && word_size < 8\<close>
  unchanged: it is not replaced by 8, the shift count is negative and the
  routine has undefined behaviour.
\<close>

theorem word_size_precondition:
  "(0 \<le> word_size bus \<longrightarrow>
      1 \<le> norm_word_size bus \<and> norm_word_size bus \<le> 8 \<and>
      0 \<le> norm_word_size bus - 1 \<and> norm_word_size bus - 1 \<le> 7 \<and>
      (\<exists>read_byte w'. sspi_byte_read_write bus write_byte w = Inr (read_byte, w'))) \<and>
   (word_size bus < 0 \<longrightarrow>
      norm_word_size bus = word_size bus \<and> norm_word_size bus \<noteq> 8 \<and>
      norm_word_size bus - 1 < 0 \<and>
      sspi_byte_read_write bus write_byte w = Inl Negative_shift_count)"
proof (intro conjI impI)
  assume nn: "0 \<le> word_size bus"
  from norm_word_size_range[OF nn]
  show "1 \<le> norm_word_size bus" "norm_word_size bus \<le> 8"
    "0 \<le> norm_word_size bus - 1" "norm_word_size bus - 1 \<le> 7"
    by simp_all
  show "\<exists>read_byte w'. sspi_byte_read_write bus write_byte w = Inr (read_byte, w')"
    by (simp add: byte_decomp[OF nn] split: prod.splits)
next
  assume neg: "word_size bus < 0"
  then show n: "norm_word_size bus = word_size bus" by (simp add: norm_word_size_def)
  from neg n show "norm_word_size bus \<noteq> 8" "norm_word_size bus - 1 < 0" by simp_all
  then show "sspi_byte_read_write bus write_byte w = Inl Negative_shift_count"
    by (simp add: sspi_byte_read_write_def)
qed

theorem word_size_precondition_witness:
  "0 \<le> word_size (test_bus False False False 5) \<and>
   norm_word_size (test_bus False False False 5) = 5 \<and>
   (\<exists>read_byte w'. sspi_byte_read_write (test_bus False False False 5) 0x87
        (test_world miso_8bit 0x87 0x5A) = Inr (read_byte, w')) \<and>
   word_size (test_bus False False False (- 1)) < 0 \<and>
   norm_word_size (test_bus False False False (- 1)) = - 1 \<and>
   sspi_byte_read_write (test_bus False False False (- 1)) 0x87
        (test_world miso_8bit 0x87 0x5A) = Inl Negative_shift_count"
  using word_size_precondition[of "test_bus False False False 5" "0x87" "test_world miso_8bit 0x87 0x5A"]
    word_size_precondition[of "test_bus False False False (- 1)" "0x87" "test_world miso_8bit 0x87 0x5A"]
  by (simp add: test_bus_def norm_word_size_def)

end
